theory Spec2Isabelle
  imports Complex_Main "HOL-Library.Word" "HOL-Library.Log_Nat" "HOL-Library.Monad_Syntax"
begin

unbundle bit_operations_syntax

section \<open>proximal.h: comparing floating point values in units of ulps\<close>

text \<open>
  The header works on three floating point types: \<^verbatim>\<open>float\<close> (IEEE 754 binary32),
  \<^verbatim>\<open>double\<close> (IEEE 754 binary64) and \<^verbatim>\<open>long double\<close> (x86 extended precision).
  A value of such a type is modelled by its bit pattern, which is what the unions
  \<^verbatim>\<open>__representation<T, S, U>::data\<close> of the header read and write. A C++ \<^verbatim>\<open>int\<close> is
  an \<^typ>\<open>int\<close>; where the header computes an \<^verbatim>\<open>int\<close> from its arguments the model
  checks the range (\<open>cint\<close>). A result of type \<^typ>\<open>'a option\<close> is \<open>None\<close> where the C++
  has no defined result: an operation whose result is undefined, or a loop that does not
  return.
\<close>

type_synonym bits16 = "16 word"
type_synonym bits32 = "32 word"
type_synonym bits64 = "64 word"

record bits80 =
  low :: bits64
  high :: bits16

definition cint :: "int \<Rightarrow> int option" where
  "cint v = (if - 2147483648 \<le> v \<and> v \<le> 2147483647 then Some v else None)"

subsection \<open>The constants derived from \<^verbatim>\<open>std::numeric_limits\<close>\<close>

text \<open>
  \<^verbatim>\<open>std::numeric_limits<T>\<close> belongs to the standard library. The three members the
  header reads are the fields of a record, with the values the three formats have.
\<close>

record numeric_limits =
  digits :: int
  min_exponent :: int
  max_exponent :: int

definition float_limits :: numeric_limits where
  "float_limits = \<lparr>digits = 24, min_exponent = - 125, max_exponent = 128\<rparr>"

definition double_limits :: numeric_limits where
  "double_limits = \<lparr>digits = 53, min_exponent = - 1021, max_exponent = 1024\<rparr>"

definition long_double_limits :: numeric_limits where
  "long_double_limits = \<lparr>digits = 64, min_exponent = - 16381, max_exponent = 16384\<rparr>"

definition fractional_digits :: "numeric_limits \<Rightarrow> int" where
  "fractional_digits T = digits T - 1"

definition min_explicit_exponent :: "numeric_limits \<Rightarrow> int" where
  "min_explicit_exponent T = min_exponent T - 1"

definition max_explicit_exponent :: "numeric_limits \<Rightarrow> int" where
  "max_explicit_exponent T = max_exponent T - 1"

definition min_implicit_exponent :: "numeric_limits \<Rightarrow> int" where
  "min_implicit_exponent T = min_explicit_exponent T - fractional_digits T"

definition fractional_precision :: "numeric_limits \<Rightarrow> int \<Rightarrow> int" where
  "fractional_precision T N = fractional_digits T - N"

definition exponent_limit :: "numeric_limits \<Rightarrow> int \<Rightarrow> int" where
  "exponent_limit T N = min_implicit_exponent T + N"

subsection \<open>\<^verbatim>\<open>count_leading_zeros\<close>\<close>

text \<open>
  The header chooses between two bodies with
  \<^verbatim>\<open>#if defined(__has_builtin) && __has_builtin(__builtin_clz)\<close>, and the first body of
  the 64-bit overload reads the argument as an array of two 32-bit words, whose order
  in memory is the platform's. Both are parameters of the model.
\<close>

record platform =
  has_builtin_clz :: bool
  little_endian :: bool

text \<open>
  \<^verbatim>\<open>__builtin_clz\<close> is the compiler's: the number of leading 0-bits of a 32-bit
  argument, and no defined result when the argument is 0.
\<close>

definition builtin_clz :: "bits32 \<Rightarrow> int option" where
  "builtin_clz w = (if w = 0 then None else Some (32 - int (floorlog 2 (unat w))))"

text \<open>
  The other body: \<^verbatim>\<open>while (1) { if (i < 0) break; n ++; i <<= 1; }\<close> on an
  \<^verbatim>\<open>int i\<close>. The loop does not return when \<open>i\<close> is 0.
\<close>

partial_function (option) clz_loop :: "bits32 \<Rightarrow> int \<Rightarrow> int option" where
  "clz_loop i n = (if sint i < 0 then Some n else clz_loop (push_bit 1 i) (n + 1))"

definition count_leading_zeros32 :: "platform \<Rightarrow> bits32 \<Rightarrow> int option" where
  "count_leading_zeros32 P u =
     (if u = 0 then Some 32
      else if has_builtin_clz P then builtin_clz u
      else clz_loop u 0)"

text \<open>
  \<^verbatim>\<open>words\<close> is the argument seen as \<^verbatim>\<open>std::uint32_t[2]\<close>. In the second body,
  \<^verbatim>\<open>int i = reinterpret_cast<std::int64_t&>(u)\<close> keeps the low 32 bits.
\<close>

definition words :: "platform \<Rightarrow> bits64 \<Rightarrow> nat \<Rightarrow> bits32" where
  "words P u k =
     (if (k = 0) = little_endian P then ucast u else ucast (drop_bit 32 u))"

definition count_leading_zeros64 :: "platform \<Rightarrow> bits64 \<Rightarrow> int option" where
  "count_leading_zeros64 P u =
     (if u = 0 then Some 64
      else if has_builtin_clz P then
        (if words P u 1 \<noteq> 0
         then map_option (\<lambda>c. c + 32) (builtin_clz (words P u 0))
         else builtin_clz (words P u 1))
      else clz_loop (ucast u) 0)"

subsection \<open>\<^verbatim>\<open>__representation<float, bits32, bits32>\<close>\<close>

definition float_exp_bias :: int where "float_exp_bias = 127"
definition float_exp_shift :: nat where "float_exp_shift = 23"
definition float_sig_offset :: int where "float_sig_offset = 9"
definition float_exp_mask :: bits32 where "float_exp_mask = 0x7F800000"
definition float_sig_mask :: bits32 where "float_sig_mask = 0x007FFFFF"
definition float_sig_integer_bit :: bits32 where "float_sig_integer_bit = 0x00800000"

text \<open>The constructor \<^verbatim>\<open>data(int exp, bits32 sig)\<close>.\<close>

definition float_data :: "int \<Rightarrow> bits32 \<Rightarrow> bits32 option" where
  "float_data ex sig =
     (case cint (ex + float_exp_bias) of
        None \<Rightarrow> None
      | Some e \<Rightarrow>
          Some ((push_bit float_exp_shift (word_of_int e) AND float_exp_mask)
                OR (sig AND float_sig_mask)))"

definition float_exponent :: "bits32 \<Rightarrow> int" where
  "float_exponent b = uint (drop_bit float_exp_shift (b AND float_exp_mask)) - float_exp_bias"

definition float_significand :: "bits32 \<Rightarrow> bits32" where
  "float_significand b = b AND float_sig_mask"

text \<open>
  \<^verbatim>\<open>exp2\<close>: a shift by the width of the word or more has no defined result in C++.
\<close>

definition float_exp2 :: "int \<Rightarrow> bits32 option" where
  "float_exp2 ex =
     (if ex < min_explicit_exponent float_limits then
        (if min_explicit_exponent float_limits - ex < 32
         then Some (drop_bit (nat (min_explicit_exponent float_limits - ex)) float_sig_integer_bit)
         else None)
      else
        (case cint (ex + float_exp_bias) of
           None \<Rightarrow> None
         | Some e \<Rightarrow> Some (push_bit float_exp_shift (word_of_int e) AND float_exp_mask)))"

definition float_ilogb :: "platform \<Rightarrow> bits32 \<Rightarrow> int option" where
  "float_ilogb P b =
     (let ex = float_exponent b in
      if ex = - float_exp_bias then
        map_option (\<lambda>c. ex - (c - float_sig_offset))
          (count_leading_zeros32 P (b AND float_sig_mask))
      else Some ex)"

subsection \<open>\<^verbatim>\<open>__representation<double, bits64, bits64>\<close>\<close>

definition double_exp_bias :: int where "double_exp_bias = 1023"
definition double_exp_shift :: nat where "double_exp_shift = 52"
definition double_sig_offset :: int where "double_sig_offset = 12"
definition double_exp_mask :: bits64 where "double_exp_mask = 0x7FF0000000000000"
definition double_sig_mask :: bits64 where "double_sig_mask = 0x000FFFFFFFFFFFFF"
definition double_sig_integer_bit :: bits64 where "double_sig_integer_bit = 0x0010000000000000"

definition double_data :: "int \<Rightarrow> bits64 \<Rightarrow> bits64 option" where
  "double_data ex sig =
     (case cint (ex + double_exp_bias) of
        None \<Rightarrow> None
      | Some e \<Rightarrow>
          Some ((push_bit double_exp_shift (word_of_int e) AND double_exp_mask)
                OR (sig AND double_sig_mask)))"

definition double_exponent :: "bits64 \<Rightarrow> int" where
  "double_exponent b =
     uint (drop_bit double_exp_shift (b AND double_exp_mask)) - double_exp_bias"

definition double_significand :: "bits64 \<Rightarrow> bits64" where
  "double_significand b = b AND double_sig_mask"

definition double_exp2 :: "int \<Rightarrow> bits64 option" where
  "double_exp2 ex =
     (if ex < min_explicit_exponent double_limits then
        (if min_explicit_exponent double_limits - ex < 64
         then Some (drop_bit (nat (min_explicit_exponent double_limits - ex))
                      double_sig_integer_bit)
         else None)
      else
        (case cint (ex + double_exp_bias) of
           None \<Rightarrow> None
         | Some e \<Rightarrow> Some (push_bit double_exp_shift (word_of_int e) AND double_exp_mask)))"

definition double_ilogb :: "platform \<Rightarrow> bits64 \<Rightarrow> int option" where
  "double_ilogb P b =
     (let ex = double_exponent b in
      if ex = - double_exp_bias then
        map_option (\<lambda>c. ex - (c - double_sig_offset))
          (count_leading_zeros64 P (b AND double_sig_mask))
      else Some ex)"

subsection \<open>\<^verbatim>\<open>__representation<long double, bits64, bits80>\<close>\<close>

definition long_double_exp_bias :: int where "long_double_exp_bias = 16383"
definition long_double_exp_shift :: nat where "long_double_exp_shift = 0"
definition long_double_sig_offset :: int where "long_double_sig_offset = 1"
definition long_double_exp_mask :: bits16 where "long_double_exp_mask = 0x7FFF"
definition long_double_sig_mask :: bits64 where "long_double_sig_mask = 0xFFFFFFFFFFFFFFFF"
definition long_double_sig_integer_bit :: bits64 where
  "long_double_sig_integer_bit = 0x8000000000000000"

definition long_double_data :: "int \<Rightarrow> bits64 \<Rightarrow> bits80 option" where
  "long_double_data ex sig =
     (case cint (ex + long_double_exp_bias) of
        None \<Rightarrow> None
      | Some e \<Rightarrow> Some \<lparr>low = sig, high = word_of_int e AND long_double_exp_mask\<rparr>)"

definition long_double_exponent :: "bits80 \<Rightarrow> int" where
  "long_double_exponent b =
     uint (drop_bit long_double_exp_shift (high b AND long_double_exp_mask))
       - long_double_exp_bias"

definition long_double_significand :: "bits80 \<Rightarrow> bits64" where
  "long_double_significand b = low b AND long_double_sig_mask"

definition long_double_exp2 :: "int \<Rightarrow> bits80 option" where
  "long_double_exp2 ex =
     (if ex < min_explicit_exponent long_double_limits then
        (if min_explicit_exponent long_double_limits - ex < 64
         then Some \<lparr>low = drop_bit (nat (min_explicit_exponent long_double_limits - ex))
                              long_double_sig_integer_bit,
                    high = 0\<rparr>
         else None)
      else
        (case cint (ex + long_double_exp_bias) of
           None \<Rightarrow> None
         | Some e \<Rightarrow>
             Some \<lparr>low = long_double_sig_integer_bit,
                   high = word_of_int e AND long_double_exp_mask\<rparr>))"

definition long_double_ilogb :: "platform \<Rightarrow> bits80 \<Rightarrow> int option" where
  "long_double_ilogb P b =
     (let ex = long_double_exponent b in
      if ex = - long_double_exp_bias then
        map_option (\<lambda>c. ex - (c - long_double_sig_offset))
          (count_leading_zeros64 P (low b AND long_double_sig_mask))
      else Some ex)"

subsection \<open>The value of a bit pattern and the arithmetic of the language\<close>

text \<open>
  The operators \<^verbatim>\<open>==\<close>, \<^verbatim>\<open><\<close>, \<^verbatim>\<open><=\<close> and \<^verbatim>\<open>-\<close> on a floating point type, and
  \<^verbatim>\<open>isinf\<close>, \<^verbatim>\<open>isnan\<close>, \<^verbatim>\<open>std::abs\<close> and \<^verbatim>\<open>std::max\<close>, are the language's and
  the standard library's. They are modelled by IEEE 754 on the value a bit pattern
  stands for: not a number, an infinity with its sign, or the finite number
  \<open>\<plusminus> m * 2 ^ e\<close> given by sign, \<open>m\<close> and \<open>e\<close>. Subtraction rounds the exact
  difference to the nearest value of the format, ties to even, which is the rounding
  mode a program starts in.
\<close>

datatype fpval = FNaN | FInf bool | FFin bool nat int

definition valof :: "fpval \<Rightarrow> real" where
  "valof v = (case v of FFin s m e \<Rightarrow> (if s then - 1 else 1) * real m * 2 powi e | _ \<Rightarrow> 0)"

definition float_value :: "bits32 \<Rightarrow> fpval" where
  "float_value b =
     (let s = bit b 31; E = unat (take_bit 8 (drop_bit 23 b)); f = unat (take_bit 23 b)
      in if E = 255 then (if f = 0 then FInf s else FNaN)
         else if E = 0 then FFin s f (- 149)
         else FFin s (2 ^ 23 + f) (int E - 150))"

definition double_value :: "bits64 \<Rightarrow> fpval" where
  "double_value b =
     (let s = bit b 63; E = unat (take_bit 11 (drop_bit 52 b)); f = unat (take_bit 52 b)
      in if E = 2047 then (if f = 0 then FInf s else FNaN)
         else if E = 0 then FFin s f (- 1074)
         else FFin s (2 ^ 52 + f) (int E - 1075))"

text \<open>
  x86 extended precision, as the x87 unit reads it: the significand is the 64-bit word
  \<open>low\<close> with its integer bit explicit; sign and exponent are in \<open>high\<close>. A pattern
  with exponent field 0 is a zero or a subnormal, or a pseudo-denormal when the integer
  bit is set. A pattern whose exponent field is not 0 and whose integer bit is clear
  is not supported: the unit treats it as an invalid operand, and it is read as not a
  number here.
\<close>

definition long_double_value :: "bits80 \<Rightarrow> fpval" where
  "long_double_value b =
     (let s = bit (high b) 15; E = unat (take_bit 15 (high b)); m = unat (low b)
      in if E = 32767 then (if low b = 0x8000000000000000 then FInf s else FNaN)
         else if E = 0 then FFin s m (- 16445)
         else if bit (low b) 63 then FFin s m (int E - 16446)
         else FNaN)"

definition fp_isinf :: "fpval \<Rightarrow> bool" where
  "fp_isinf v = (case v of FInf _ \<Rightarrow> True | _ \<Rightarrow> False)"

definition fp_isnan :: "fpval \<Rightarrow> bool" where
  "fp_isnan v = (case v of FNaN \<Rightarrow> True | _ \<Rightarrow> False)"

fun fp_eq :: "fpval \<Rightarrow> fpval \<Rightarrow> bool" where
  "fp_eq (FFin s m e) (FFin t n f) = (valof (FFin s m e) = valof (FFin t n f))"
| "fp_eq (FInf s) (FInf t) = (s = t)"
| "fp_eq _ _ = False"

fun fp_less :: "fpval \<Rightarrow> fpval \<Rightarrow> bool" where
  "fp_less (FFin s m e) (FFin t n f) = (valof (FFin s m e) < valof (FFin t n f))"
| "fp_less (FInf s) (FInf t) = (s \<and> \<not> t)"
| "fp_less (FInf s) (FFin _ _ _) = s"
| "fp_less (FFin _ _ _) (FInf t) = (\<not> t)"
| "fp_less _ _ = False"

fun fp_le :: "fpval \<Rightarrow> fpval \<Rightarrow> bool" where
  "fp_le (FFin s m e) (FFin t n f) = (valof (FFin s m e) \<le> valof (FFin t n f))"
| "fp_le (FInf s) (FInf t) = (s \<or> \<not> t)"
| "fp_le (FInf s) (FFin _ _ _) = s"
| "fp_le (FFin _ _ _) (FInf t) = (\<not> t)"
| "fp_le _ _ = False"

fun fp_abs :: "fpval \<Rightarrow> fpval" where
  "fp_abs (FFin s m e) = FFin False m e"
| "fp_abs (FInf s) = FInf False"
| "fp_abs FNaN = FNaN"

text \<open>
  \<open>fp_round T s n e\<close> is \<open>\<plusminus> n * 2 ^ e\<close> rounded to \<open>digits T\<close> significant bits, for
  \<open>0 < n\<close> and \<open>e\<close> not below the exponent of the format's smallest subnormal.
\<close>

definition fp_round :: "numeric_limits \<Rightarrow> bool \<Rightarrow> nat \<Rightarrow> int \<Rightarrow> fpval" where
  "fp_round T s n e =
     (let k = floorlog 2 n; p = nat (digits T)
      in if k \<le> p then FFin s n e
         else
           (let sh = k - p; q = n div 2 ^ sh; r = n mod 2 ^ sh; h = 2 ^ (sh - 1);
                q' = (if h < r \<or> (r = h \<and> odd q) then q + 1 else q);
                e' = e + int sh
            in if max_exponent T < int (floorlog 2 q') + e' then FInf s else FFin s q' e'))"

fun fp_sub :: "numeric_limits \<Rightarrow> fpval \<Rightarrow> fpval \<Rightarrow> fpval" where
  "fp_sub T (FFin s m e) (FFin t n f) =
     (let g = min e f;
          d = (if s then - 1 else 1) * int m * 2 ^ nat (e - g)
                - (if t then - 1 else 1) * int n * 2 ^ nat (f - g)
      in if d = 0 then FFin (m = 0 \<and> n = 0 \<and> s \<and> \<not> t) 0 g
         else fp_round T (d < 0) (nat \<bar>d\<bar>) g)"
| "fp_sub T (FInf s) (FInf t) = (if s = t then FNaN else FInf s)"
| "fp_sub T (FInf s) (FFin _ _ _) = FInf s"
| "fp_sub T (FFin _ _ _) (FInf t) = FInf (\<not> t)"
| "fp_sub T _ _ = FNaN"

subsection \<open>What the templates use of a floating point type\<close>

text \<open>
  \<^verbatim>\<open>ulp\<close>, \<^verbatim>\<open>margin\<close> and the members of \<^verbatim>\<open>proximal<N>\<close> are templates over the type
  \<open>T\<close>. An instance is given by the record of what they use of \<open>T\<close>: its
  \<^verbatim>\<open>numeric_limits\<close>, the value of a bit pattern, \<^verbatim>\<open>std::abs\<close>, the pattern of
  \<^verbatim>\<open>static_cast<T>(0.0)\<close>, and the \<^verbatim>\<open>exp2i<T>\<close> and \<^verbatim>\<open>ilog2<T>\<close> that overload
  resolution selects.
\<close>

record 'a fp_type =
  fp_limits :: numeric_limits
  fp_value :: "'a \<Rightarrow> fpval"
  fp_fabs :: "'a \<Rightarrow> 'a"
  fp_zero :: 'a
  fp_exp2i :: "int \<Rightarrow> 'a option"
  fp_ilog2 :: "'a \<Rightarrow> int option"

definition isinf :: "'a fp_type \<Rightarrow> 'a \<Rightarrow> bool" where
  "isinf T x = fp_isinf (fp_value T x)"

definition isnan :: "'a fp_type \<Rightarrow> 'a \<Rightarrow> bool" where
  "isnan T x = fp_isnan (fp_value T x)"

text \<open>\<^verbatim>\<open>std::max(a, b)\<close> is \<^verbatim>\<open>(a < b) ? b : a\<close>.\<close>

definition std_max :: "'a fp_type \<Rightarrow> 'a \<Rightarrow> 'a \<Rightarrow> 'a" where
  "std_max T a b = (if fp_less (fp_value T a) (fp_value T b) then b else a)"

subsection \<open>\<^verbatim>\<open>exp2i\<close> and \<^verbatim>\<open>ilog2\<close>: the specializations\<close>

definition exp2i_float :: "int \<Rightarrow> bits32 option" where
  "exp2i_float ex = float_exp2 ex"

definition ilog2_float :: "platform \<Rightarrow> bits32 \<Rightarrow> int option" where
  "ilog2_float P x = float_ilogb P x"

definition exp2i_double :: "int \<Rightarrow> bits64 option" where
  "exp2i_double ex = double_exp2 ex"

definition ilog2_double :: "platform \<Rightarrow> bits64 \<Rightarrow> int option" where
  "ilog2_double P x = double_ilogb P x"

definition exp2i_long_double :: "int \<Rightarrow> bits80 option" where
  "exp2i_long_double ex = long_double_exp2 ex"

definition ilog2_long_double :: "platform \<Rightarrow> bits80 \<Rightarrow> int option" where
  "ilog2_long_double P x = long_double_ilogb P x"

definition float_type :: "platform \<Rightarrow> bits32 fp_type" where
  "float_type P =
     \<lparr>fp_limits = float_limits, fp_value = float_value,
      fp_fabs = (\<lambda>b. b AND 0x7FFFFFFF), fp_zero = 0,
      fp_exp2i = exp2i_float, fp_ilog2 = ilog2_float P\<rparr>"

definition double_type :: "platform \<Rightarrow> bits64 fp_type" where
  "double_type P =
     \<lparr>fp_limits = double_limits, fp_value = double_value,
      fp_fabs = (\<lambda>b. b AND 0x7FFFFFFFFFFFFFFF), fp_zero = 0,
      fp_exp2i = exp2i_double, fp_ilog2 = ilog2_double P\<rparr>"

definition long_double_type :: "platform \<Rightarrow> bits80 fp_type" where
  "long_double_type P =
     \<lparr>fp_limits = long_double_limits, fp_value = long_double_value,
      fp_fabs = (\<lambda>b. \<lparr>low = low b, high = high b AND 0x7FFF\<rparr>),
      fp_zero = \<lparr>low = 0, high = 0\<rparr>,
      fp_exp2i = exp2i_long_double, fp_ilog2 = ilog2_long_double P\<rparr>"

subsection \<open>\<^verbatim>\<open>ulp\<close> and \<^verbatim>\<open>margin\<close>\<close>

definition ulp :: "'a fp_type \<Rightarrow> 'a \<Rightarrow> 'a option" where
  "ulp T x =
     (if isinf T x \<or> isnan T x then Some (fp_zero T)
      else do {
        l \<leftarrow> fp_ilog2 T x;
        e \<leftarrow> cint (l - fractional_precision (fp_limits T) 0);
        fp_exp2i T (max e (exponent_limit (fp_limits T) 0))
      })"

definition margin :: "'a fp_type \<Rightarrow> int \<Rightarrow> 'a \<Rightarrow> 'a option" where
  "margin T N x =
     (if isinf T x \<or> isnan T x then Some (fp_zero T)
      else do {
        l \<leftarrow> fp_ilog2 T x;
        e \<leftarrow> cint (l - fractional_precision (fp_limits T) N);
        fp_exp2i T (max e (exponent_limit (fp_limits T) N))
      })"

subsection \<open>\<^verbatim>\<open>proximal<N>\<close>\<close>

text \<open>
  \<^verbatim>\<open>_ulp\<close> keeps \<^verbatim>\<open>ilog2(x) - fractional_precision<T, 0>\<close> in a variable of type \<open>T\<close>
  and converts it back to \<^verbatim>\<open>int\<close> for \<^verbatim>\<open>exp2i\<close>; the integers concerned are small
  enough for both conversions to be exact.
\<close>

definition priv_ulp :: "'a fp_type \<Rightarrow> 'a \<Rightarrow> 'a option" where
  "priv_ulp T x =
     do {
       l \<leftarrow> fp_ilog2 T x;
       exp_ulp_x \<leftarrow> cint (l - fractional_precision (fp_limits T) 0);
       fp_exp2i T (if exponent_limit (fp_limits T) 0 < exp_ulp_x then exp_ulp_x
                   else exponent_limit (fp_limits T) 0)
     }"

definition priv_margin :: "'a fp_type \<Rightarrow> int \<Rightarrow> 'a \<Rightarrow> 'a option" where
  "priv_margin T N x =
     do {
       l \<leftarrow> fp_ilog2 T x;
       margin_exp \<leftarrow> cint (l - fractional_precision (fp_limits T) N);
       fp_exp2i T (if exponent_limit (fp_limits T) N < margin_exp then margin_exp
                   else exponent_limit (fp_limits T) N)
     }"

definition within_margin :: "'a fp_type \<Rightarrow> int \<Rightarrow> 'a \<Rightarrow> 'a \<Rightarrow> bool option" where
  "within_margin T N a b =
     (if fp_eq (fp_value T a) (fp_value T b) then Some True
      else if isinf T a \<or> isinf T b \<or> isnan T a \<or> isnan T b then Some False
      else do {
        m \<leftarrow> priv_margin T N (std_max T (fp_fabs T a) (fp_fabs T b));
        Some (fp_le (fp_abs (fp_sub (fp_limits T) (fp_value T a) (fp_value T b)))
                    (fp_value T m))
      })"

definition proximal_ulp :: "'a fp_type \<Rightarrow> int \<Rightarrow> 'a \<Rightarrow> 'a option" where
  "proximal_ulp T N x =
     (if isinf T x \<or> isnan T x then Some (fp_zero T)
      else if fp_eq (fp_value T x) (FFin False 0 0)
        then fp_exp2i T (exponent_limit (fp_limits T) 0)
      else priv_ulp T x)"

definition proximal_margin :: "'a fp_type \<Rightarrow> int \<Rightarrow> 'a \<Rightarrow> 'a option" where
  "proximal_margin T N x =
     (if isinf T x \<or> isnan T x then Some (fp_zero T)
      else if fp_eq (fp_value T x) (FFin False 0 0)
        then fp_exp2i T (exponent_limit (fp_limits T) N)
      else priv_margin T N x)"

definition proximal :: "'a fp_type \<Rightarrow> int \<Rightarrow> 'a \<Rightarrow> 'a \<Rightarrow> bool option" where
  "proximal T N a b = within_margin T N a b"

subsection \<open>\<^verbatim>\<open>exp2i\<close> and \<^verbatim>\<open>ilog2\<close>: the default templates\<close>

text \<open>
  The default templates call \<^verbatim>\<open>exp2\<close> and \<^verbatim>\<open>ilogb\<close> of the standard library on a
  value of \<open>T\<close>. The two functions are modelled on values, as ISO C specifies them.
  \<^verbatim>\<open>ilogb(x)\<close> is the exponent of \<open>x\<close> as an \<^verbatim>\<open>int\<close>: for a finite \<open>x\<close> other than
  zero the integer \<open>k\<close> with \<open>2 ^ k \<le> |x| < 2 ^ (k + 1)\<close>, a subnormal being counted
  as if it were normalized; \<^verbatim>\<open>FP_ILOGB0\<close> for a zero, \<^verbatim>\<open>INT_MAX\<close> for an infinity and
  \<^verbatim>\<open>FP_ILOGBNAN\<close> for a NaN. The two macros are the implementation's: \<^verbatim>\<open>FP_ILOGB0\<close>
  is \<^verbatim>\<open>INT_MIN\<close> or \<^verbatim>\<open>-INT_MAX\<close>, \<^verbatim>\<open>FP_ILOGBNAN\<close> is \<^verbatim>\<open>INT_MAX\<close> or
  \<^verbatim>\<open>INT_MIN\<close>.
\<close>

record ilogb_macros =
  FP_ILOGB0 :: int
  FP_ILOGBNAN :: int

fun std_ilogb :: "ilogb_macros \<Rightarrow> fpval \<Rightarrow> int" where
  "std_ilogb L (FFin s m e) = (if m = 0 then FP_ILOGB0 L else int (floorlog 2 m) - 1 + e)"
| "std_ilogb L (FInf s) = 2147483647"
| "std_ilogb L FNaN = FP_ILOGBNAN L"

text \<open>
  \<^verbatim>\<open>exp2\<close> at the integer \<open>n\<close> is \<open>2 ^ n\<close> where that is a value of \<open>T\<close>, normal or
  subnormal; it overflows to \<open>+\<infinity>\<close> from \<open>2 ^ max_exponent\<close> on, and a power below
  the smallest subnormal rounds to \<open>0\<close>. The value is given with the significand
  and exponent a bit pattern of \<open>T\<close> decodes to. \<^verbatim>\<open>static_cast<T>(exp)\<close> is exact for
  every \<^verbatim>\<open>exp\<close> of less than \<open>digits\<close> bits, and beyond those \<^verbatim>\<open>exp2\<close> has long
  overflowed, or rounded to \<open>0\<close>, in each of the three formats.
\<close>

definition std_exp2 :: "numeric_limits \<Rightarrow> int \<Rightarrow> fpval" where
  "std_exp2 T n =
     (if max_exponent T \<le> n then FInf False
      else if min_explicit_exponent T \<le> n
        then FFin False (2 ^ nat (fractional_digits T)) (n - fractional_digits T)
      else if min_implicit_exponent T \<le> n
        then FFin False (2 ^ nat (n - min_implicit_exponent T)) (min_implicit_exponent T)
      else FFin False 0 (min_implicit_exponent T))"

definition exp2i :: "numeric_limits \<Rightarrow> int \<Rightarrow> fpval" where
  "exp2i T ex = std_exp2 T ex"

definition ilog2 :: "ilogb_macros \<Rightarrow> fpval \<Rightarrow> int" where
  "ilog2 L x = std_ilogb L x"

text \<open>
  The instance of the templates that a format gets when its specialization is switched
  off: it works on the values themselves.
\<close>

definition generic_type :: "ilogb_macros \<Rightarrow> numeric_limits \<Rightarrow> fpval fp_type" where
  "generic_type L T =
     \<lparr>fp_limits = T, fp_value = (\<lambda>v. v), fp_fabs = fp_abs,
      fp_zero = FFin False 0 (min_implicit_exponent T),
      fp_exp2i = (\<lambda>ex. Some (exp2i T ex)), fp_ilog2 = (\<lambda>x. Some (ilog2 L x))\<rparr>"





section \<open>Properties\<close>

subsection \<open>Unfolding the constants\<close>

lemmas limits_defs = float_limits_def double_limits_def long_double_limits_def
  fractional_digits_def min_explicit_exponent_def max_explicit_exponent_def
  min_implicit_exponent_def fractional_precision_def exponent_limit_def

lemmas float_defs = float_type_def exp2i_float_def ilog2_float_def float_exp2_def
  float_ilogb_def float_exponent_def float_significand_def float_data_def
  float_exp_bias_def float_exp_shift_def float_sig_offset_def float_exp_mask_def
  float_sig_mask_def float_sig_integer_bit_def float_value_def

lemmas double_defs = double_type_def exp2i_double_def ilog2_double_def double_exp2_def
  double_ilogb_def double_exponent_def double_significand_def double_data_def
  double_exp_bias_def double_exp_shift_def double_sig_offset_def double_exp_mask_def
  double_sig_mask_def double_sig_integer_bit_def double_value_def

lemmas long_double_defs = long_double_type_def exp2i_long_double_def ilog2_long_double_def
  long_double_exp2_def long_double_ilogb_def long_double_exponent_def
  long_double_significand_def long_double_data_def long_double_exp_bias_def
  long_double_exp_shift_def long_double_sig_offset_def long_double_exp_mask_def
  long_double_sig_mask_def long_double_sig_integer_bit_def long_double_value_def

lemmas template_defs = proximal_def within_margin_def priv_margin_def priv_ulp_def
  std_max_def isinf_def isnan_def fp_isinf_def fp_isnan_def valof_def fp_round_def cint_def
  ulp_def margin_def proximal_ulp_def proximal_margin_def

lemma float_mask_eqs:
  "float_sig_mask = mask 23" "float_exp_mask = push_bit 23 (mask 8)"
  "float_sig_integer_bit = push_bit 23 1"
  by (simp_all add: float_sig_mask_def float_exp_mask_def float_sig_integer_bit_def
      mask_eq_exp_minus_1)

lemma double_mask_eqs:
  "double_sig_mask = mask 52" "double_exp_mask = push_bit 52 (mask 11)"
  "double_sig_integer_bit = push_bit 52 1"
  by (simp_all add: double_sig_mask_def double_exp_mask_def double_sig_integer_bit_def
      mask_eq_exp_minus_1)

lemma long_double_mask_eqs:
  "long_double_sig_mask = mask 64" "long_double_exp_mask = mask 15"
  "long_double_sig_integer_bit = push_bit 63 1"
  by (simp_all add: long_double_sig_mask_def long_double_exp_mask_def
      long_double_sig_integer_bit_def mask_eq_exp_minus_1)

lemma sign_mask_numerals:
  "(mask 31 :: bits32) = 0x7FFFFFFF" "(mask 63 :: bits64) = 0x7FFFFFFFFFFFFFFF"
  "(mask 15 :: bits16) = 0x7FFF"
  by (simp_all add: mask_eq_exp_minus_1)

subsection \<open>Decomposing a value and building it again\<close>

lemma uint_take_bit_less:
  fixes w :: "'a::len word"
  shows "uint (take_bit n w) < 2 ^ n"
  by (simp add: unsigned_take_bit_eq)

lemma cint_uint:
  fixes w :: "'a::len word"
  assumes "uint w < 2147483648"
  shows "cint (uint w) = Some (uint w)"
proof -
  have "0 \<le> uint w" by simp
  then have "- 2147483648 \<le> uint w" by linarith
  with assms show ?thesis by (simp add: cint_def)
qed

lemma and_mask_top:
  fixes b :: "'a::len word"
  assumes "Suc k = LENGTH('a)"
  shows "(b AND mask k = b) = (\<not> bit b k)"
proof
  assume "b AND mask k = b"
  then have "bit b k = bit (b AND mask k) k" by simp
  then show "\<not> bit b k" by (simp add: bit_simps)
next
  assume nb: "\<not> bit b k"
  show "b AND mask k = b"
  proof (rule bit_word_eqI)
    fix n assume n: "n < LENGTH('a)"
    then have "n < k \<or> n = k" using assms by linarith
    then show "bit (b AND mask k) n = bit b n" using nb n by (auto simp: bit_simps)
  qed
qed

lemma float_field:
  "drop_bit float_exp_shift (b AND float_exp_mask) = take_bit 8 (drop_bit 23 b)"
  unfolding float_mask_eqs float_exp_shift_def
  by (rule bit_word_eqI) (auto simp: bit_simps)

lemma float_exponent_alt: "float_exponent b = uint (take_bit 8 (drop_bit 23 b)) - 127"
  unfolding float_exponent_def float_field float_exp_bias_def ..

lemma float_roundtrip:
  "float_data (float_exponent b) (float_significand b) = Some (b AND mask 31)"
proof -
  have r: "cint (float_exponent b + float_exp_bias) = Some (uint (take_bit 8 (drop_bit 23 b)))"
    using uint_take_bit_less [of 8 "drop_bit 23 b"]
    by (simp add: cint_uint float_exp_bias_def float_exponent_alt)
  have "(push_bit 23 (word_of_int (uint (take_bit 8 (drop_bit 23 b)))) AND push_bit 23 (mask 8))
          OR ((b AND mask 23) AND mask 23) = (b AND mask 31 :: bits32)"
    by (rule bit_word_eqI) (auto simp: bit_simps)
  then show ?thesis
    unfolding float_data_def r float_significand_def float_mask_eqs float_exp_shift_def
    by simp
qed

lemma double_field:
  "drop_bit double_exp_shift (b AND double_exp_mask) = take_bit 11 (drop_bit 52 b)"
  unfolding double_mask_eqs double_exp_shift_def
  by (rule bit_word_eqI) (auto simp: bit_simps)

lemma double_exponent_alt: "double_exponent b = uint (take_bit 11 (drop_bit 52 b)) - 1023"
  unfolding double_exponent_def double_field double_exp_bias_def ..

lemma double_roundtrip:
  "double_data (double_exponent b) (double_significand b) = Some (b AND mask 63)"
proof -
  have r: "cint (double_exponent b + double_exp_bias)
             = Some (uint (take_bit 11 (drop_bit 52 b)))"
    using uint_take_bit_less [of 11 "drop_bit 52 b"]
    by (simp add: cint_uint double_exp_bias_def double_exponent_alt)
  have "(push_bit 52 (word_of_int (uint (take_bit 11 (drop_bit 52 b))))
           AND push_bit 52 (mask 11))
          OR ((b AND mask 52) AND mask 52) = (b AND mask 63 :: bits64)"
    by (rule bit_word_eqI) (auto simp: bit_simps)
  then show ?thesis
    unfolding double_data_def r double_significand_def double_mask_eqs double_exp_shift_def
    by simp
qed

lemma long_double_exponent_alt:
  "long_double_exponent b = uint (take_bit 15 (high b)) - 16383"
  unfolding long_double_exponent_def long_double_exp_shift_def long_double_exp_bias_def
    long_double_mask_eqs
  by (simp add: take_bit_eq_mask)

lemma long_double_roundtrip:
  "long_double_data (long_double_exponent b) (long_double_significand b)
     = Some \<lparr>low = low b, high = high b AND mask 15\<rparr>"
proof -
  have r: "cint (long_double_exponent b + long_double_exp_bias)
             = Some (uint (take_bit 15 (high b)))"
    using uint_take_bit_less [of 15 "high b"]
    by (simp add: cint_uint long_double_exp_bias_def long_double_exponent_alt)
  have "word_of_int (uint (take_bit 15 (high b))) AND mask 15 = (high b AND mask 15 :: bits16)"
    by (rule bit_word_eqI) (auto simp: bit_simps)
  moreover have "low b AND mask 64 = low b"
    by (rule bit_word_eqI) (auto simp: bit_simps)
  ultimately show ?thesis
    unfolding long_double_data_def r long_double_significand_def long_double_mask_eqs
    by simp
qed

text \<open>
  Claim C2, as stated: decomposing a finite value and building a value from the exponent
  and the significand gives back the bit pattern, also for a negative value. It fails at
  \<open>-1.0f\<close>, the pattern \<open>0xBF800000\<close>: the constructor has no sign argument, and the
  value built is \<open>1.0f\<close>.
\<close>

theorem roundtrip_negative_counterexample:
  "float_value 0xBF800000 = FFin True 8388608 (- 23)
   \<and> float_data (float_exponent 0xBF800000) (float_significand 0xBF800000) = Some 0x3F800000
   \<and> float_data (float_exponent 0xBF800000) (float_significand 0xBF800000) \<noteq> Some 0xBF800000"
  by (simp add: float_defs template_defs)

text \<open>
  Claim C2, amended: for every bit pattern of each of the three formats, decomposing it
  and building a value from the exponent and the significand gives the pattern with the
  sign bit cleared; the result is the original pattern exactly when its sign bit is clear.
\<close>

theorem roundtrip_clears_sign:
  "float_data (float_exponent b) (float_significand b) = Some (b AND 0x7FFFFFFF)
   \<and> (float_data (float_exponent b) (float_significand b) = Some b) = (\<not> bit b 31)
   \<and> double_data (double_exponent d) (double_significand d) = Some (d AND 0x7FFFFFFFFFFFFFFF)
   \<and> (double_data (double_exponent d) (double_significand d) = Some d) = (\<not> bit d 63)
   \<and> long_double_data (long_double_exponent l) (long_double_significand l)
       = Some \<lparr>low = low l, high = high l AND 0x7FFF\<rparr>
   \<and> (long_double_data (long_double_exponent l) (long_double_significand l) = Some l)
       = (\<not> bit (high l) 15)"
proof -
  have "(\<lparr>low = low l, high = high l AND mask 15\<rparr> = l) = (high l AND mask 15 = high l)"
    by (cases l) simp
  then show ?thesis
    using and_mask_top [of 31 b] and_mask_top [of 63 d] and_mask_top [of 15 "high l"]
    by (simp add: float_roundtrip double_roundtrip long_double_roundtrip
        sign_mask_numerals [symmetric])
qed

subsection \<open>Counting leading zeros\<close>

lemma clz_loop_one: "clz_loop 1 0 = Some 31"
  by (simp add: clz_loop.simps)

lemma clz_loop_Some_nonzero: "clz_loop i n = Some y \<Longrightarrow> i \<noteq> 0"
proof (rule clz_loop.raw_induct [where P = "\<lambda>i n y. i \<noteq> 0"])
  fix f :: "bits32 \<Rightarrow> int \<Rightarrow> int option" and i n y
  assume ih: "\<And>i n y. f i n = Some y \<Longrightarrow> i \<noteq> 0"
    and st: "(if sint i < 0 then Some n else f (push_bit 1 i) (n + 1)) = Some y"
  show "i \<noteq> 0"
  proof
    assume "i = 0"
    with st have "f 0 (n + 1) = Some y" by simp
    from ih [OF this] show False by simp
  qed
qed

lemma clz_loop_zero: "clz_loop 0 n = None"
  using clz_loop_Some_nonzero [of 0 n] by (cases "clz_loop 0 n") auto

lemma count_leading_zeros_zero:
  "count_leading_zeros32 P 0 = Some 32" "count_leading_zeros64 P 0 = Some 64"
  by (simp_all add: count_leading_zeros32_def count_leading_zeros64_def)

text \<open>
  Claim C4: \<^verbatim>\<open>count_leading_zeros\<close> never applies \<^verbatim>\<open>__builtin_clz\<close> to a zero word.
  The 64-bit overload does, already for the argument 1 and whatever the order of the two
  words in memory: it tests \<^verbatim>\<open>words[1]\<close> and then counts in the other word when
  \<^verbatim>\<open>words[1]\<close> is not zero, and in \<^verbatim>\<open>words[1]\<close> itself when it is zero. The body with
  the loop returns 31, the count of the low 32 bits.
\<close>

theorem count_leading_zeros64_one:
  "count_leading_zeros64 P 1 = (if has_builtin_clz P then None else Some 31)"
  by (simp add: count_leading_zeros64_def words_def builtin_clz_def clz_loop_one)

text \<open>
  Claim C3: \<^verbatim>\<open>ilogb\<close> of a subnormal value is the exponent of its leading set bit. The
  smallest subnormal \<^verbatim>\<open>double\<close>, \<open>2 ^ - 1074\<close> with the bit pattern 1, has no defined
  result with \<^verbatim>\<open>__builtin_clz\<close> and the result \<open>- 1042\<close> with the loop.
\<close>

theorem double_ilogb_min_subnormal:
  "double_value 1 = FFin False 1 (- 1074)
   \<and> double_ilogb P 1 = (if has_builtin_clz P then None else Some (- 1042))"
  by (simp add: double_defs count_leading_zeros64_def words_def builtin_clz_def clz_loop_one)

subsection \<open>The comparisons of the test suite\<close>

text \<open>
  Claim C9: with \<open>a\<close> built from exponent 0 and significand 0, \<^verbatim>\<open>proximal<0>\<close> on
  \<^verbatim>\<open>float\<close> accepts the value with significand 1 and rejects the one with significand 2;
  \<^verbatim>\<open>proximal<1>\<close> on \<^verbatim>\<open>double\<close> accepts significand 2 and rejects significand 3, and
  \<^verbatim>\<open>proximal<0>\<close> rejects significand 2.
\<close>

theorem proximal_boundary_cases:
  "do {a \<leftarrow> float_data 0 0; b \<leftarrow> float_data 0 0x00000001; proximal (float_type P) 0 a b}
     = Some True
   \<and> do {a \<leftarrow> float_data 0 0; b \<leftarrow> float_data 0 0x00000002; proximal (float_type P) 0 a b}
     = Some False
   \<and> do {a \<leftarrow> double_data 0 0; b \<leftarrow> double_data 0 0x0000000000000002;
         proximal (double_type P) 1 a b} = Some True
   \<and> do {a \<leftarrow> double_data 0 0; b \<leftarrow> double_data 0 0x0000000000000003;
         proximal (double_type P) 1 a b} = Some False
   \<and> do {a \<leftarrow> double_data 0 0; b \<leftarrow> double_data 0 0x0000000000000002;
         proximal (double_type P) 0 a b} = Some False"
  by (simp add: template_defs float_defs double_defs limits_defs Let_def compute_floorlog)

subsection \<open>\<^verbatim>\<open>ulp\<close> of an infinity, a NaN and a zero\<close>

lemma valof_FFin: "valof (FFin s m e) = (if s then - 1 else 1) * real m * 2 powi e"
  by (simp add: valof_def)

lemma fp_eq_zero_iff: "fp_eq v (FFin False 0 0) \<longleftrightarrow> (\<exists>s e. v = FFin s 0 e)"
  by (cases v) (auto simp: valof_FFin)

lemma ulp_inf_nan: "isinf T x \<or> isnan T x \<Longrightarrow> ulp T x = Some (fp_zero T)"
  by (simp add: ulp_def)

lemma proximal_ulp_inf_nan:
  "isinf T x \<or> isnan T x \<Longrightarrow> proximal_ulp T N x = Some (fp_zero T)"
  by (simp add: proximal_ulp_def)

lemma proximal_ulp_zero:
  assumes "fp_eq (fp_value T x) (FFin False 0 0)"
  shows "proximal_ulp T N x = fp_exp2i T (exponent_limit (fp_limits T) 0)"
proof -
  from assms obtain s e where "fp_value T x = FFin s 0 e"
    unfolding fp_eq_zero_iff by blast
  then show ?thesis
    by (simp add: proximal_ulp_def isinf_def isnan_def fp_isinf_def fp_isnan_def valof_FFin)
qed

lemma ulp_zero:
  assumes "fp_eq (fp_value T x) (FFin False 0 0)"
    and "fp_ilog2 T x = Some l"
    and "- 2147483648 \<le> l - fractional_digits (fp_limits T)"
    and "l - fractional_digits (fp_limits T) \<le> min_implicit_exponent (fp_limits T)"
    and "min_implicit_exponent (fp_limits T) \<le> 2147483647"
  shows "ulp T x = fp_exp2i T (exponent_limit (fp_limits T) 0)"
proof -
  from assms(1) obtain s e where "fp_value T x = FFin s 0 e"
    unfolding fp_eq_zero_iff by blast
  then show ?thesis using assms(2-)
    by (simp add: ulp_def isinf_def isnan_def fp_isinf_def fp_isnan_def cint_def
        fractional_precision_def exponent_limit_def max_def)
qed

lemma float_ilog2_zero:
  assumes "fp_eq (float_value x) (FFin False 0 0)"
  shows "ilog2_float P x = Some (- 150)"
proof -
  from assms have z: "take_bit 8 (drop_bit 23 x) = 0" "take_bit 23 x = 0"
    unfolding fp_eq_zero_iff
    by (auto simp: float_value_def Let_def unsigned_eq_0_iff split: if_splits)
  have e: "float_exponent x = - 127" by (simp add: float_exponent_alt z)
  have s: "x AND float_sig_mask = 0" by (simp add: float_mask_eqs z flip: take_bit_eq_mask)
  show ?thesis
    by (simp add: ilog2_float_def float_ilogb_def e s count_leading_zeros_zero
        float_exp_bias_def float_sig_offset_def)
qed

lemma double_ilog2_zero:
  assumes "fp_eq (double_value x) (FFin False 0 0)"
  shows "ilog2_double P x = Some (- 1075)"
proof -
  from assms have z: "take_bit 11 (drop_bit 52 x) = 0" "take_bit 52 x = 0"
    unfolding fp_eq_zero_iff
    by (auto simp: double_value_def Let_def unsigned_eq_0_iff split: if_splits)
  have e: "double_exponent x = - 1023" by (simp add: double_exponent_alt z)
  have s: "x AND double_sig_mask = 0" by (simp add: double_mask_eqs z flip: take_bit_eq_mask)
  show ?thesis
    by (simp add: ilog2_double_def double_ilogb_def e s count_leading_zeros_zero
        double_exp_bias_def double_sig_offset_def)
qed

lemma long_double_ilog2_zero:
  assumes "fp_eq (long_double_value x) (FFin False 0 0)"
  shows "ilog2_long_double P x = Some (- 16446)"
proof -
  from assms have z: "take_bit 15 (high x) = 0" "low x = 0"
    unfolding fp_eq_zero_iff
    by (auto simp: long_double_value_def Let_def unsigned_eq_0_iff split: if_splits)
  have e: "long_double_exponent x = - 16383" by (simp add: long_double_exponent_alt z)
  show ?thesis
    by (simp add: ilog2_long_double_def long_double_ilogb_def e z count_leading_zeros_zero
        long_double_exp_bias_def long_double_sig_offset_def)
qed

lemma exp2i_smallest:
  "exp2i_float (exponent_limit float_limits 0) = Some 1"
  "exp2i_double (exponent_limit double_limits 0) = Some 1"
  "exp2i_long_double (exponent_limit long_double_limits 0) = Some \<lparr>low = 1, high = 0\<rparr>"
  by (simp_all add: float_defs double_defs long_double_defs limits_defs)

lemma value_smallest:
  "float_value 1 = FFin False 1 (- 149)"
  "double_value 1 = FFin False 1 (- 1074)"
  "long_double_value \<lparr>low = 1, high = 0\<rparr> = FFin False 1 (- 16445)"
  by (simp_all add: float_defs double_defs long_double_defs)

text \<open>
  Claim C6: in each of the three formats, \<^verbatim>\<open>ulp\<close> of an infinity or of a NaN is 0,
  and \<^verbatim>\<open>ulp\<close> of a zero of either sign is \<^verbatim>\<open>exp2i\<close> of the exponent of the smallest
  subnormal, which is the pattern 1 with the value \<open>2 ^ min_implicit_exponent\<close>; the
  free function \<^verbatim>\<open>ulp\<close> and the member \<^verbatim>\<open>proximal<N>::ulp\<close> agree on it, for every
  \<open>N\<close>.
\<close>

theorem ulp_special_cases:
  "(isinf (float_type P) xi \<or> isnan (float_type P) xi \<longrightarrow>
      ulp (float_type P) xi = Some 0 \<and> proximal_ulp (float_type P) N xi = Some 0)
   \<and> (fp_eq (float_value xz) (FFin False 0 0) \<longrightarrow>
      ulp (float_type P) xz = exp2i_float (min_implicit_exponent float_limits)
      \<and> proximal_ulp (float_type P) N xz = exp2i_float (min_implicit_exponent float_limits))
   \<and> exp2i_float (min_implicit_exponent float_limits) = Some 1
   \<and> valof (float_value 1) = 2 powi (min_implicit_exponent float_limits)
   \<and> (isinf (double_type P) yi \<or> isnan (double_type P) yi \<longrightarrow>
      ulp (double_type P) yi = Some 0 \<and> proximal_ulp (double_type P) N yi = Some 0)
   \<and> (fp_eq (double_value yz) (FFin False 0 0) \<longrightarrow>
      ulp (double_type P) yz = exp2i_double (min_implicit_exponent double_limits)
      \<and> proximal_ulp (double_type P) N yz = exp2i_double (min_implicit_exponent double_limits))
   \<and> exp2i_double (min_implicit_exponent double_limits) = Some 1
   \<and> valof (double_value 1) = 2 powi (min_implicit_exponent double_limits)
   \<and> (isinf (long_double_type P) zi \<or> isnan (long_double_type P) zi \<longrightarrow>
      ulp (long_double_type P) zi = Some \<lparr>low = 0, high = 0\<rparr>
      \<and> proximal_ulp (long_double_type P) N zi = Some \<lparr>low = 0, high = 0\<rparr>)
   \<and> (fp_eq (long_double_value zz) (FFin False 0 0) \<longrightarrow>
      ulp (long_double_type P) zz = exp2i_long_double (min_implicit_exponent long_double_limits)
      \<and> proximal_ulp (long_double_type P) N zz
          = exp2i_long_double (min_implicit_exponent long_double_limits))
   \<and> exp2i_long_double (min_implicit_exponent long_double_limits) = Some \<lparr>low = 1, high = 0\<rparr>
   \<and> valof (long_double_value \<lparr>low = 1, high = 0\<rparr>)
       = 2 powi (min_implicit_exponent long_double_limits)"
proof -
  have el: "exponent_limit T 0 = min_implicit_exponent T" for T
    by (simp add: exponent_limit_def)
  have f: "fp_eq (float_value xz) (FFin False 0 0) \<Longrightarrow>
      ulp (float_type P) xz = exp2i_float (min_implicit_exponent float_limits)
      \<and> proximal_ulp (float_type P) N xz = exp2i_float (min_implicit_exponent float_limits)"
    using ulp_zero [of "float_type P" xz "- 150"] proximal_ulp_zero [of "float_type P" xz N]
      float_ilog2_zero [of xz P]
    by (simp add: float_type_def el limits_defs)
  have d: "fp_eq (double_value yz) (FFin False 0 0) \<Longrightarrow>
      ulp (double_type P) yz = exp2i_double (min_implicit_exponent double_limits)
      \<and> proximal_ulp (double_type P) N yz = exp2i_double (min_implicit_exponent double_limits)"
    using ulp_zero [of "double_type P" yz "- 1075"] proximal_ulp_zero [of "double_type P" yz N]
      double_ilog2_zero [of yz P]
    by (simp add: double_type_def el limits_defs)
  have l: "fp_eq (long_double_value zz) (FFin False 0 0) \<Longrightarrow>
      ulp (long_double_type P) zz = exp2i_long_double (min_implicit_exponent long_double_limits)
      \<and> proximal_ulp (long_double_type P) N zz
          = exp2i_long_double (min_implicit_exponent long_double_limits)"
    using ulp_zero [of "long_double_type P" zz "- 16446"]
      proximal_ulp_zero [of "long_double_type P" zz N] long_double_ilog2_zero [of zz P]
    by (simp add: long_double_type_def el limits_defs)
  have i: "isinf T x \<or> isnan T x \<Longrightarrow>
      ulp T x = Some (fp_zero T) \<and> proximal_ulp T N x = Some (fp_zero T)" for T :: "'a fp_type" and x
    by (simp add: ulp_inf_nan proximal_ulp_inf_nan)
  have z: "fp_zero (float_type P) = 0" "fp_zero (double_type P) = 0"
    "fp_zero (long_double_type P) = \<lparr>low = 0, high = 0\<rparr>"
    by (simp_all add: float_type_def double_type_def long_double_type_def)
  have v: "valof (float_value 1) = 2 powi (min_implicit_exponent float_limits)"
    "valof (double_value 1) = 2 powi (min_implicit_exponent double_limits)"
    "valof (long_double_value \<lparr>low = 1, high = 0\<rparr>)
       = 2 powi (min_implicit_exponent long_double_limits)"
    by (simp_all add: value_smallest valof_FFin limits_defs)
  show ?thesis
    using f d l i [of "float_type P" xi] i [of "double_type P" yi] i [of "long_double_type P" zi]
      exp2i_smallest v
    by (simp only: z el) blast
qed

theorem ulp_special_cases_witness:
  "ulp (float_type \<lparr>has_builtin_clz = True, little_endian = True\<rparr>) 0x7F800000 = Some 0
   \<and> ulp (float_type \<lparr>has_builtin_clz = True, little_endian = True\<rparr>) 0x80000000 = Some 1
   \<and> ulp (double_type \<lparr>has_builtin_clz = True, little_endian = True\<rparr>) 0x7FF8000000000000
       = Some 0
   \<and> proximal_ulp (double_type \<lparr>has_builtin_clz = True, little_endian = True\<rparr>) 1
         0x8000000000000000 = Some 1
   \<and> ulp (long_double_type \<lparr>has_builtin_clz = True, little_endian = True\<rparr>)
         \<lparr>low = 0x8000000000000000, high = 0x7FFF\<rparr> = Some \<lparr>low = 0, high = 0\<rparr>
   \<and> ulp (long_double_type \<lparr>has_builtin_clz = True, little_endian = True\<rparr>)
         \<lparr>low = 0, high = 0x8000\<rparr> = Some \<lparr>low = 1, high = 0\<rparr>"
proof -
  have h: "isinf (float_type P) 0x7F800000" "fp_eq (float_value 0x80000000) (FFin False 0 0)"
    "isnan (double_type P) 0x7FF8000000000000"
    "fp_eq (double_value 0x8000000000000000) (FFin False 0 0)"
    "isinf (long_double_type P) \<lparr>low = 0x8000000000000000, high = 0x7FFF\<rparr>"
    "fp_eq (long_double_value \<lparr>low = 0, high = 0x8000\<rparr>) (FFin False 0 0)" for P
    by (simp_all add: float_defs double_defs long_double_defs isinf_def isnan_def fp_isinf_def
        fp_isnan_def valof_FFin)
  show ?thesis
    using ulp_special_cases [where P = "\<lparr>has_builtin_clz = True, little_endian = True\<rparr>"
        and N = 1 and xi = "0x7F800000" and xz = "0x80000000" and yi = "0x7FF8000000000000"
        and yz = "0x8000000000000000"
        and zi = "\<lparr>low = 0x8000000000000000, high = 0x7FFF\<rparr>"
        and zz = "\<lparr>low = 0, high = 0x8000\<rparr>"] h
    by simp
qed

subsection \<open>The private and the free \<^verbatim>\<open>margin\<close>, and \<^verbatim>\<open>std::abs\<close>\<close>

lemma fp_abs_class [simp]:
  "fp_isinf (fp_abs v) = fp_isinf v" "fp_isnan (fp_abs v) = fp_isnan v"
  by (cases v; simp add: fp_isinf_def fp_isnan_def)+

lemma margin_eq_priv_margin:
  assumes "\<not> isinf T x" "\<not> isnan T x"
  shows "margin T N x = priv_margin T N x"
proof -
  have m: "max e l = (if l < e then e else l)" for e l :: int
    by (simp add: max_def)
  show ?thesis using assms by (simp add: margin_def priv_margin_def m)
qed

lemma std_max_cases: "std_max T x y = x \<or> std_max T x y = y"
  by (simp add: std_max_def)

lemma float_fabs_value: "float_value (b AND 0x7FFFFFFF) = fp_abs (float_value b)"
proof -
  have "b AND 0x7FFFFFFF = b AND mask 31" by (simp add: sign_mask_numerals)
  moreover have "take_bit 8 (drop_bit 23 (b AND mask 31)) = take_bit 8 (drop_bit 23 b)"
    by (rule bit_word_eqI) (auto simp: bit_simps)
  moreover have "take_bit 23 (b AND mask 31) = take_bit 23 b"
    by (rule bit_word_eqI) (auto simp: bit_simps)
  moreover have "\<not> bit (b AND mask 31) 31" by (simp add: bit_simps)
  ultimately show ?thesis by (simp add: float_value_def Let_def)
qed

lemma double_fabs_value: "double_value (b AND 0x7FFFFFFFFFFFFFFF) = fp_abs (double_value b)"
proof -
  have "b AND 0x7FFFFFFFFFFFFFFF = b AND mask 63" by (simp add: sign_mask_numerals)
  moreover have "take_bit 11 (drop_bit 52 (b AND mask 63)) = take_bit 11 (drop_bit 52 b)"
    by (rule bit_word_eqI) (auto simp: bit_simps)
  moreover have "take_bit 52 (b AND mask 63) = take_bit 52 b"
    by (rule bit_word_eqI) (auto simp: bit_simps)
  moreover have "\<not> bit (b AND mask 63) 63" by (simp add: bit_simps)
  ultimately show ?thesis by (simp add: double_value_def Let_def)
qed

lemma long_double_fabs_value:
  "long_double_value \<lparr>low = low b, high = high b AND 0x7FFF\<rparr> = fp_abs (long_double_value b)"
proof -
  have "high b AND 0x7FFF = high b AND mask 15" by (simp add: sign_mask_numerals)
  moreover have "take_bit 15 (high b AND mask 15) = take_bit 15 (high b)"
    by (rule bit_word_eqI) (auto simp: bit_simps)
  moreover have "\<not> bit (high b AND mask 15) 15" by (simp add: bit_simps)
  ultimately show ?thesis by (simp add: long_double_value_def Let_def)
qed

lemma fabs_value:
  "fp_value (float_type P) (fp_fabs (float_type P) x) = fp_abs (fp_value (float_type P) x)"
  "fp_value (double_type P) (fp_fabs (double_type P) y) = fp_abs (fp_value (double_type P) y)"
  "fp_value (long_double_type P) (fp_fabs (long_double_type P) z)
     = fp_abs (fp_value (long_double_type P) z)"
  by (simp_all add: float_type_def double_type_def long_double_type_def float_fabs_value
      double_fabs_value long_double_fabs_value)

subsection \<open>Words and powers of two\<close>

lemma unat_2p:
  assumes "k < LENGTH('a)"
  shows "unat (2 ^ k :: 'a::len word) = 2 ^ k"
proof -
  have "(2 ^ k :: 'a word) = of_nat (2 ^ k)" by simp
  then have "unat (2 ^ k :: 'a word) = 2 ^ k mod 2 ^ LENGTH('a)"
    by (simp only: unat_of_nat)
  then show ?thesis using assms by simp
qed

lemma drop_bit_exp_word:
  assumes "j \<le> m" "m < LENGTH('a)"
  shows "drop_bit j (2 ^ m :: 'a::len word) = 2 ^ (m - j)"
  using assms by (intro bit_word_eqI) (auto simp: bit_simps)

lemma take_bit_exp_word:
  assumes "m < k"
  shows "take_bit k (2 ^ m :: 'a::len word) = 2 ^ m"
  using assms by (intro bit_word_eqI) (auto simp: bit_simps)

lemma take_bit_drop_bit_exp_word:
  assumes "m < k"
  shows "take_bit n (drop_bit k (2 ^ m :: 'a::len word)) = 0"
  using assms by (intro bit_word_eqI) (auto simp: bit_simps)

lemma bit_exp_word_top:
  assumes "m < k"
  shows "\<not> bit (2 ^ m :: 'a::len word) k"
  using assms by (auto simp: bit_simps)

lemma exp_field_word:
  fixes i :: int and sh w :: nat
  defines "b \<equiv> (push_bit sh (word_of_int i) AND push_bit sh (mask w) :: 'a::len word)"
  assumes "sh + w < LENGTH('a)"
  shows "take_bit w (drop_bit sh b) = take_bit w (word_of_int i)"
    and "take_bit sh b = 0" and "\<not> bit b (sh + w)"
proof -
  show "take_bit w (drop_bit sh b) = take_bit w (word_of_int i)"
    unfolding b_def using assms(2) by (intro bit_word_eqI) (auto simp: bit_simps)
  show "take_bit sh b = 0"
    unfolding b_def by (intro bit_word_eqI) (auto simp: bit_simps)
  show "\<not> bit b (sh + w)"
    unfolding b_def by (auto simp: bit_simps)
qed

lemma unat_take_bit_word_of_int:
  "unat (take_bit n (word_of_int i :: 'a::len word)) = nat (i mod 2 ^ min n LENGTH('a))"
  by (simp add: unsigned_take_bit_eq unat_eq_nat_uint uint_word_of_int take_bit_eq_mod min_def
      mod_mod_cancel le_imp_power_dvd nat_take_bit_eq  flip: take_bit_eq_mod)

lemma pow2_powi: "real (2 ^ n) * 2 powi k = 2 powi (int n + k)"
  by (simp add: power_int_add)

lemma valof_pow2: "valof (FFin False (2 ^ n) k) = 2 powi (int n + k)"
  using pow2_powi [of n k] by (simp add: valof_FFin)


subsection \<open>The loop that counts leading zeros\<close>

lemma bit_top_iff_unat:
  fixes w :: "'a::len word"
  assumes "Suc k = LENGTH('a)"
  shows "bit w k \<longleftrightarrow> 2 ^ k \<le> unat w"
proof -
  have lt: "unat w < 2 * 2 ^ k"
    using unsigned_less [of w, where 'a = nat] assms [symmetric] by simp
  have "bit w k \<longleftrightarrow> bit (unat w) k"
    using assms by (simp add: bit_unsigned_iff)
  also have "\<dots> \<longleftrightarrow> odd (unat w div 2 ^ k)"
    by (simp add: bit_iff_odd)
  also have "\<dots> \<longleftrightarrow> 2 ^ k \<le> unat w"
  proof
    assume "odd (unat w div 2 ^ k)"
    then have "unat w div 2 ^ k \<noteq> 0" by (metis even_zero)
    then show "2 ^ k \<le> unat w" by (simp add: div_eq_0_iff not_less)
  next
    assume "2 ^ k \<le> unat w"
    with lt have "unat w div 2 ^ k = 1" by (intro div_nat_eqI) simp_all
    then show "odd (unat w div 2 ^ k)" by simp
  qed
  finally show ?thesis .
qed

lemma floorlog_top:
  assumes "2 ^ k \<le> n" "n < 2 * 2 ^ k"
  shows "floorlog 2 n = Suc k"
proof -
  have "Suc k \<le> floorlog 2 n" using assms(1) by (intro floorlog_ge_SucI) simp_all
  moreover have "floorlog 2 n \<le> Suc k" using assms(2) by (intro floorlog_leI) simp_all
  ultimately show ?thesis by simp
qed

lemma floorlog_double: "0 < n \<Longrightarrow> floorlog 2 (2 * n) = Suc (floorlog 2 n)"
  using floorlog_power [of n 2 1] by (simp add: mult.commute)


lemma sint_neg_iff32: "sint i < 0 \<longleftrightarrow> 2 ^ 31 \<le> unat i" for i :: "32 word"
  using bit_last_iff [of i] bit_top_iff_unat [of 31 i] by simp

lemma unat_push_bit_1_32:
  fixes i :: "32 word"
  assumes "unat i < 2 ^ 31"
  shows "unat (push_bit 1 i) = 2 * unat i"
proof -
  have "unat (push_bit 1 i) = (2 * unat i) mod 2 ^ 32"
    by (simp add: unat_word_ariths mult.commute)
  then show ?thesis using assms by simp
qed

lemma clz_loop_step:
  fixes i :: "32 word"
  assumes "i \<noteq> 0" "\<not> sint i < 0"
  shows "push_bit 1 i \<noteq> 0"
    and "floorlog 2 (unat (push_bit 1 i)) = Suc (floorlog 2 (unat i))"
proof -
  from assms(2) have lt: "unat i < 2 ^ 31" unfolding sint_neg_iff32 by simp
  from assms(1) have pos: "0 < unat i" by (simp add: unat_gt_0)
  have u: "unat (push_bit 1 i) = 2 * unat i" using lt by (rule unat_push_bit_1_32)
  with pos show "push_bit 1 i \<noteq> 0" by (metis mult_eq_0_iff not_less_zero unat_gt_0 zero_neq_numeral nat_neq_iff)
  show "floorlog 2 (unat (push_bit 1 i)) = Suc (floorlog 2 (unat i))"
    unfolding u using pos by (rule floorlog_double)
qed

lemma clz_loop_top:
  fixes i :: "32 word"
  assumes "sint i < 0"
  shows "floorlog 2 (unat i) = 32"
proof -
  have "2 ^ 31 \<le> unat i" using assms unfolding sint_neg_iff32 .
  moreover have "unat i < 2 * 2 ^ 31" using unsigned_less [of i, where 'a = nat] by simp
  ultimately show ?thesis using floorlog_top [of 31 "unat i"] by simp
qed

lemma clz_loop_partial:
  "clz_loop i n = Some y \<Longrightarrow> i \<noteq> 0 \<and> y = n + 32 - int (floorlog 2 (unat i))"
proof (rule clz_loop.raw_induct
    [where P = "\<lambda>i n y. i \<noteq> 0 \<and> y = n + 32 - int (floorlog 2 (unat i))"])
  fix f :: "32 word \<Rightarrow> int \<Rightarrow> int option" and i n y
  assume ih: "\<And>i n y. f i n = Some y \<Longrightarrow> i \<noteq> 0 \<and> y = n + 32 - int (floorlog 2 (unat i))"
    and st: "(if sint i < 0 then Some n else f (push_bit 1 i) (n + 1)) = Some y"
  show "i \<noteq> 0 \<and> y = n + 32 - int (floorlog 2 (unat i))"
  proof (cases "sint i < 0")
    case True
    with st have "y = n" by simp
    moreover from True have "i \<noteq> 0" by auto
    ultimately show ?thesis using clz_loop_top [OF True] by simp
  next
    case False
    with st have "f (push_bit 1 i) (n + 1) = Some y" by simp
    from ih [OF this] have p: "push_bit 1 i \<noteq> 0"
      and y: "y = n + 1 + 32 - int (floorlog 2 (unat (push_bit 1 i)))" by auto
    from p have nz: "i \<noteq> 0" by auto
    from y clz_loop_step(2) [OF nz False] nz show ?thesis by simp
  qed
qed

lemma clz_loop_total:
  "i \<noteq> 0 \<Longrightarrow> clz_loop i n = Some (n + 32 - int (floorlog 2 (unat i)))"
proof (induction "32 - floorlog 2 (unat i)" arbitrary: i n)
  case 0
  have "floorlog 2 (unat i) \<le> 32"
    using unsigned_less [of i, where 'a = nat] by (intro floorlog_leI) simp_all
  with 0 have fl: "floorlog 2 (unat i) = 32" by simp
  have "sint i < 0"
  proof (rule ccontr)
    assume "\<not> sint i < 0"
    then have "unat i < 2 ^ 31" unfolding sint_neg_iff32 by simp
    then have "floorlog 2 (unat i) \<le> 31" by (intro floorlog_leI) simp_all
    with fl show False by simp
  qed
  then show ?case using fl by (subst clz_loop.simps) simp
next
  case (Suc k)
  have ns: "\<not> sint i < 0"
  proof
    assume "sint i < 0"
    from clz_loop_top [OF this] Suc(2) show False by simp
  qed
  note st = clz_loop_step [OF Suc(3) ns]
  have "k = 32 - floorlog 2 (unat (push_bit 1 i))" using Suc(2) st(2) by simp
  from Suc(1) [OF this st(1)] have
    "clz_loop (push_bit 1 i) (n + 1) = Some (n + 1 + 32 - int (floorlog 2 (unat (push_bit 1 i))))" .
  then show ?case using ns st(2) by (subst clz_loop.simps) simp
qed


lemma count_leading_zeros32_eq:
  "count_leading_zeros32 P u = Some (32 - int (floorlog 2 (unat u)))"
proof (cases "u = 0")
  case True
  then show ?thesis by (simp add: count_leading_zeros32_def floorlog_def)
next
  case False
  then show ?thesis
    using clz_loop_total [of u 0]
    by (simp add: count_leading_zeros32_def builtin_clz_def)
qed

lemma builtin_clz_range: "builtin_clz w = Some c \<Longrightarrow> 0 \<le> c \<and> c \<le> 31"
proof -
  assume a: "builtin_clz w = Some c"
  then have nz: "w \<noteq> 0" and c: "c = 32 - int (floorlog 2 (unat w))"
    by (auto simp: builtin_clz_def split: if_splits)
  have "floorlog 2 (unat w) \<le> 32"
    using unsigned_less [of w, where 'a = nat] by (intro floorlog_leI) simp_all
  moreover have "1 \<le> floorlog 2 (unat w)"
    using nz by (intro floorlog_geI) (simp_all add: unat_gt_0 Suc_le_eq)
  ultimately show ?thesis using c by simp
qed

lemma clz_loop_range: "clz_loop i 0 = Some c \<Longrightarrow> 0 \<le> c \<and> c \<le> 31"
proof -
  assume "clz_loop i 0 = Some c"
  from clz_loop_partial [OF this] have nz: "i \<noteq> 0" and c: "c = 32 - int (floorlog 2 (unat i))"
    by auto
  have "floorlog 2 (unat i) \<le> 32"
    using unsigned_less [of i, where 'a = nat] by (intro floorlog_leI) simp_all
  moreover have "1 \<le> floorlog 2 (unat i)"
    using nz by (intro floorlog_geI) (simp_all add: unat_gt_0 Suc_le_eq)
  ultimately show ?thesis using c by simp
qed

lemma count_leading_zeros64_range:
  "count_leading_zeros64 P u = Some c \<Longrightarrow> 0 \<le> c \<and> c \<le> 64"
  using builtin_clz_range clz_loop_range
  by (fastforce simp: count_leading_zeros64_def split: if_splits)

subsection \<open>\<^verbatim>\<open>exp2i\<close> and \<^verbatim>\<open>ilog2\<close> on \<^verbatim>\<open>float\<close>\<close>

lemma float_value_fields:
  assumes "unat (take_bit 8 (drop_bit 23 b)) = E" "unat (take_bit 23 b) = f" "bit b 31 = s"
  shows "float_value b =
    (if E = 255 then (if f = 0 then FInf s else FNaN)
     else if E = 0 then FFin s f (- 149) else FFin s (2 ^ 23 + f) (int E - 150))"
  using assms by (simp add: float_value_def Let_def)

lemma float_exp2_normal:
  assumes "- 126 \<le> e" "e + 127 \<le> 2147483647"
  shows "\<exists>b. exp2i_float e = Some b \<and> unat (take_bit 8 (drop_bit 23 b)) = nat ((e + 127) mod 256)
     \<and> unat (take_bit 23 b) = 0 \<and> bit b 31 = False"
proof -
  define b :: bits32 where "b = push_bit 23 (word_of_int (e + 127)) AND push_bit 23 (mask 8)"
  have c: "cint (e + 127) = Some (e + 127)" using assms by (simp add: cint_def)
  have x: "exp2i_float e = Some b"
    using assms(1) unfolding exp2i_float_def float_exp2_def float_exp_bias_def c
        float_exp_shift_def float_mask_eqs b_def by (simp add: limits_defs)
  have 1: "take_bit 8 (drop_bit 23 b) = take_bit 8 (word_of_int (e + 127))"
    and 2: "take_bit 23 b = 0" and 3: "\<not> bit b (23 + 8)"
    unfolding b_def by (rule exp_field_word; simp)+
  have "unat (take_bit 8 (drop_bit 23 b)) = nat ((e + 127) mod 256)"
    unfolding 1 unat_take_bit_word_of_int by simp
  with x 2 3 show ?thesis by simp
qed

lemma float_exp2_subnormal:
  assumes "- 149 \<le> e" "e < - 126"
  shows "\<exists>b. exp2i_float e = Some b \<and> unat (take_bit 8 (drop_bit 23 b)) = 0
     \<and> unat (take_bit 23 b) = 2 ^ nat (e + 149) \<and> bit b 31 = False"
proof -
  define j where "j = nat (- 126 - e)"
  define m :: nat where "m = 23"
  define b :: bits32 where "b = drop_bit j (2 ^ m)"
  have j: "1 \<le> j" "j \<le> m" "nat (e + 149) = m - j" "m - j < 23" "m < 32"
    using assms by (auto simp: j_def m_def)
  have x: "exp2i_float e = Some b"
    using assms unfolding exp2i_float_def float_exp2_def float_sig_integer_bit_def b_def j_def m_def
    by (simp add: limits_defs)
  have b: "b = 2 ^ (m - j)"
    unfolding b_def using j by (simp add: drop_bit_exp_word)
  have 1: "take_bit 8 (drop_bit 23 b) = 0"
    unfolding b using j by (simp add: take_bit_drop_bit_exp_word)
  have 2: "take_bit 23 b = b"
    unfolding b using j by (simp add: take_bit_exp_word)
  have 3: "\<not> bit b 31"
    unfolding b using j by (simp add: bit_exp_word_top)
  have "unat b = 2 ^ (m - j)"
    unfolding b using j by (simp add: unat_2p)
  with x 1 2 3 j show ?thesis by simp
qed

lemma float_exp2i_value:
  assumes "- 149 \<le> e" "e \<le> 128"
  shows "\<exists>b. exp2i_float e = Some b \<and>
     (if e = 128 then float_value b = FInf False
      else \<exists>m k. float_value b = FFin False m k \<and> valof (FFin False m k) = 2 powi e)"
proof (cases "e < - 126")
  case True
  with assms float_exp2_subnormal [of e] obtain b where b: "exp2i_float e = Some b"
    "unat (take_bit 8 (drop_bit 23 b)) = 0" "unat (take_bit 23 b) = 2 ^ nat (e + 149)"
    "bit b 31 = False" by blast
  have "float_value b = FFin False (2 ^ nat (e + 149)) (- 149)"
    using float_value_fields [OF b(2-4)] by simp
  moreover have "valof (FFin False (2 ^ nat (e + 149)) (- 149)) = 2 powi e"
    using assms by (simp add: valof_pow2)
  ultimately show ?thesis using b(1) True by auto
next
  case False
  with assms float_exp2_normal [of e] obtain b where b: "exp2i_float e = Some b"
    "unat (take_bit 8 (drop_bit 23 b)) = nat ((e + 127) mod 256)" "unat (take_bit 23 b) = 0"
    "bit b 31 = False" by auto
  have m: "(e + 127) mod 256 = e + 127" using assms False by simp
  show ?thesis
  proof (cases "e = 128")
    case True
    then show ?thesis using float_value_fields [OF b(2-4)] b(1) by simp
  next
    case ne: False
    have "float_value b = FFin False (2 ^ 23) (e - 23)"
      using float_value_fields [OF b(2-4)] assms False ne unfolding m by auto
    moreover have "valof (FFin False (2 ^ 23) (e - 23)) = 2 powi e"
      using valof_pow2 [of 23 "e - 23"] by simp
    ultimately show ?thesis using b(1) ne by auto
  qed
qed



subsection \<open>More on \<^verbatim>\<open>float\<close>, and \<^verbatim>\<open>double\<close>\<close>

lemma count_leading_zeros32_range:
  "count_leading_zeros32 P u = Some c \<Longrightarrow> 0 \<le> c \<and> c \<le> 32"
proof -
  assume "count_leading_zeros32 P u = Some c"
  then have c: "c = 32 - int (floorlog 2 (unat u))" by (simp add: count_leading_zeros32_eq)
  have "floorlog 2 (unat u) \<le> 32"
    using unsigned_less [of u, where 'a = nat] by (intro floorlog_leI) simp_all
  with c show ?thesis by simp
qed

lemma float_ilog2_upper:
  assumes "\<not> fp_isinf (float_value x)" "\<not> fp_isnan (float_value x)"
    and "ilog2_float P x = Some l"
  shows "l \<le> 127"
proof -
  define E where "E = unat (take_bit 8 (drop_bit 23 x))"
  have v: "float_value x = (if E = 255 then (if unat (take_bit 23 x) = 0 then FInf (bit x 31) else FNaN)
     else if E = 0 then FFin (bit x 31) (unat (take_bit 23 x)) (- 149)
     else FFin (bit x 31) (2 ^ 23 + unat (take_bit 23 x)) (int E - 150))"
    by (rule float_value_fields) (simp_all add: E_def)
  have "E < 2 ^ 8" unfolding E_def unsigned_take_bit_eq by (rule take_bit_nat_less_exp)
  moreover from v assms(1,2) have "E \<noteq> 255"
    by (auto simp: fp_isinf_def fp_isnan_def split: if_splits)
  ultimately have E: "E \<le> 254" by simp
  have ex: "float_exponent x = int E - 127" by (simp add: float_exponent_alt E_def)
  show ?thesis
  proof (cases "E = 0")
    case True
    with assms(3) ex obtain c where "count_leading_zeros32 P (x AND float_sig_mask) = Some c"
      and l: "l = - 127 - (c - 9)"
      by (auto simp: ilog2_float_def float_ilogb_def float_exp_bias_def float_sig_offset_def)
    from count_leading_zeros32_range [OF this(1)] l show ?thesis by simp
  next
    case False
    with assms(3) ex E show ?thesis
      by (simp add: ilog2_float_def float_ilogb_def float_exp_bias_def)
  qed
qed

lemma double_value_fields:
  assumes "unat (take_bit 11 (drop_bit 52 b)) = E" "unat (take_bit 52 b) = f" "bit b 63 = s"
  shows "double_value b =
    (if E = 2047 then (if f = 0 then FInf s else FNaN)
     else if E = 0 then FFin s f (- 1074) else FFin s (2 ^ 52 + f) (int E - 1075))"
  using assms by (simp add: double_value_def Let_def)

lemma double_exp2_normal:
  assumes "- 1022 \<le> e" "e + 1023 \<le> 2147483647"
  shows "\<exists>b. exp2i_double e = Some b
     \<and> unat (take_bit 11 (drop_bit 52 b)) = nat ((e + 1023) mod 2048)
     \<and> unat (take_bit 52 b) = 0 \<and> bit b 63 = False"
proof -
  define b :: bits64 where "b = push_bit 52 (word_of_int (e + 1023)) AND push_bit 52 (mask 11)"
  have c: "cint (e + 1023) = Some (e + 1023)" using assms by (simp add: cint_def)
  have x: "exp2i_double e = Some b"
    using assms(1) unfolding exp2i_double_def double_exp2_def double_exp_bias_def c
        double_exp_shift_def double_mask_eqs b_def by (simp add: limits_defs)
  have 1: "take_bit 11 (drop_bit 52 b) = take_bit 11 (word_of_int (e + 1023))"
    and 2: "take_bit 52 b = 0" and 3: "\<not> bit b (52 + 11)"
    unfolding b_def by (rule exp_field_word; simp)+
  have "unat (take_bit 11 (drop_bit 52 b)) = nat ((e + 1023) mod 2048)"
    unfolding 1 unat_take_bit_word_of_int by simp
  with x 2 3 show ?thesis by simp
qed

lemma double_exp2_subnormal:
  assumes "- 1074 \<le> e" "e < - 1022"
  shows "\<exists>b. exp2i_double e = Some b \<and> unat (take_bit 11 (drop_bit 52 b)) = 0
     \<and> unat (take_bit 52 b) = 2 ^ nat (e + 1074) \<and> bit b 63 = False"
proof -
  define j where "j = nat (- 1022 - e)"
  define m :: nat where "m = 52"
  define b :: bits64 where "b = drop_bit j (2 ^ m)"
  have j: "1 \<le> j" "j \<le> m" "nat (e + 1074) = m - j" "m - j < 52" "m < 64"
    using assms by (auto simp: j_def m_def)
  have x: "exp2i_double e = Some b"
    using assms unfolding exp2i_double_def double_exp2_def double_sig_integer_bit_def b_def j_def
      m_def
    by (simp add: limits_defs)
  have b: "b = 2 ^ (m - j)"
    unfolding b_def using j by (simp add: drop_bit_exp_word)
  have 1: "take_bit 11 (drop_bit 52 b) = 0"
    unfolding b using j by (simp add: take_bit_drop_bit_exp_word)
  have 2: "take_bit 52 b = b"
    unfolding b using j by (simp add: take_bit_exp_word)
  have 3: "\<not> bit b 63"
    unfolding b using j by (simp add: bit_exp_word_top)
  have "unat b = 2 ^ (m - j)"
    unfolding b using j by (simp add: unat_2p)
  with x 1 2 3 j show ?thesis by simp
qed

lemma double_exp2i_value:
  assumes "- 1074 \<le> e" "e \<le> 1024"
  shows "\<exists>b. exp2i_double e = Some b \<and>
     (if e = 1024 then double_value b = FInf False
      else \<exists>m k. double_value b = FFin False m k \<and> valof (FFin False m k) = 2 powi e)"
proof (cases "e < - 1022")
  case True
  with assms double_exp2_subnormal [of e] obtain b where b: "exp2i_double e = Some b"
    "unat (take_bit 11 (drop_bit 52 b)) = 0" "unat (take_bit 52 b) = 2 ^ nat (e + 1074)"
    "bit b 63 = False" by blast
  have "double_value b = FFin False (2 ^ nat (e + 1074)) (- 1074)"
    using double_value_fields [OF b(2-4)] by simp
  moreover have "valof (FFin False (2 ^ nat (e + 1074)) (- 1074)) = 2 powi e"
    using assms by (simp add: valof_pow2)
  ultimately show ?thesis using b(1) True by auto
next
  case False
  with assms double_exp2_normal [of e] obtain b where b: "exp2i_double e = Some b"
    "unat (take_bit 11 (drop_bit 52 b)) = nat ((e + 1023) mod 2048)" "unat (take_bit 52 b) = 0"
    "bit b 63 = False" by auto
  have m: "(e + 1023) mod 2048 = e + 1023" using assms False by simp
  show ?thesis
  proof (cases "e = 1024")
    case True
    then show ?thesis using double_value_fields [OF b(2-4)] b(1) by simp
  next
    case ne: False
    have "double_value b = FFin False (2 ^ 52) (e - 52)"
      using double_value_fields [OF b(2-4)] assms False ne unfolding m by auto
    moreover have "valof (FFin False (2 ^ 52) (e - 52)) = 2 powi e"
      using valof_pow2 [of 52 "e - 52"] by simp
    ultimately show ?thesis using b(1) ne by auto
  qed
qed

lemma double_ilog2_upper:
  assumes "\<not> fp_isinf (double_value x)" "\<not> fp_isnan (double_value x)"
    and "ilog2_double P x = Some l"
  shows "l \<le> 1023"
proof -
  define E where "E = unat (take_bit 11 (drop_bit 52 x))"
  have v: "double_value x = (if E = 2047 then (if unat (take_bit 52 x) = 0 then FInf (bit x 63) else FNaN)
     else if E = 0 then FFin (bit x 63) (unat (take_bit 52 x)) (- 1074)
     else FFin (bit x 63) (2 ^ 52 + unat (take_bit 52 x)) (int E - 1075))"
    by (rule double_value_fields) (simp_all add: E_def)
  have "E < 2 ^ 11" unfolding E_def unsigned_take_bit_eq by (rule take_bit_nat_less_exp)
  moreover from v assms(1,2) have "E \<noteq> 2047"
    by (auto simp: fp_isinf_def fp_isnan_def split: if_splits)
  ultimately have E: "E \<le> 2046" by simp
  have ex: "double_exponent x = int E - 1023" by (simp add: double_exponent_alt E_def)
  show ?thesis
  proof (cases "E = 0")
    case True
    with assms(3) ex obtain c where "count_leading_zeros64 P (x AND double_sig_mask) = Some c"
      and l: "l = - 1023 - (c - 12)"
      by (auto simp: ilog2_double_def double_ilogb_def double_exp_bias_def double_sig_offset_def)
    from count_leading_zeros64_range [OF this(1)] l show ?thesis by simp
  next
    case False
    with assms(3) ex E show ?thesis
      by (simp add: ilog2_double_def double_ilogb_def double_exp_bias_def)
  qed
qed

subsection \<open>\<^verbatim>\<open>exp2i\<close> and \<^verbatim>\<open>ilog2\<close> on \<^verbatim>\<open>long double\<close>\<close>

lemma long_double_value_fields:
  assumes "unat (take_bit 15 (high b)) = E" "bit (high b) 15 = s" "low b = w"
  shows "long_double_value b =
    (if E = 32767 then (if w = 0x8000000000000000 then FInf s else FNaN)
     else if E = 0 then FFin s (unat w) (- 16445)
     else if bit w 63 then FFin s (unat w) (int E - 16446) else FNaN)"
  using assms by (simp add: long_double_value_def Let_def)

lemma long_double_exp2_normal:
  assumes "- 16382 \<le> e" "e + 16383 \<le> 2147483647"
  shows "\<exists>b. exp2i_long_double e = Some b
     \<and> unat (take_bit 15 (high b)) = nat ((e + 16383) mod 32768)
     \<and> bit (high b) 15 = False \<and> low b = 2 ^ 63"
proof -
  define h :: bits16 where "h = word_of_int (e + 16383) AND mask 15"
  define b where "b = \<lparr>low = (2 ^ 63 :: bits64), high = h\<rparr>"
  have c: "cint (e + 16383) = Some (e + 16383)" using assms by (simp add: cint_def)
  have x: "exp2i_long_double e = Some b"
    using assms(1) unfolding exp2i_long_double_def long_double_exp2_def long_double_exp_bias_def c
        long_double_mask_eqs b_def h_def long_double_sig_integer_bit_def
    by (simp add: limits_defs)
  have 1: "take_bit 15 h = take_bit 15 (word_of_int (e + 16383))"
    unfolding h_def by (intro bit_word_eqI) (auto simp: bit_simps)
  have 3: "\<not> bit h 15"
    unfolding h_def by (auto simp: bit_simps)
  have "unat (take_bit 15 h) = nat ((e + 16383) mod 32768)"
    unfolding 1 unat_take_bit_word_of_int by simp
  with x 3 show ?thesis by (simp add: b_def)
qed

lemma long_double_exp2_subnormal:
  assumes "- 16445 \<le> e" "e < - 16382"
  shows "\<exists>b. exp2i_long_double e = Some b \<and> unat (take_bit 15 (high b)) = 0
     \<and> bit (high b) 15 = False \<and> low b = 2 ^ nat (e + 16445) \<and> nat (e + 16445) < 63"
proof -
  define j where "j = nat (- 16382 - e)"
  define m :: nat where "m = 63"
  define b where "b = \<lparr>low = drop_bit j (2 ^ m :: bits64), high = 0\<rparr>"
  have j: "1 \<le> j" "j \<le> m" "nat (e + 16445) = m - j" "m - j < 63" "m < 64"
    using assms by (auto simp: j_def m_def)
  have x: "exp2i_long_double e = Some b"
    using assms unfolding exp2i_long_double_def long_double_exp2_def
      long_double_sig_integer_bit_def b_def j_def m_def
    by (simp add: limits_defs)
  have "low b = 2 ^ (m - j)"
    unfolding b_def using j by (simp add: drop_bit_exp_word)
  with x j show ?thesis by (simp add: b_def)
qed

lemma long_double_exp2i_value:
  assumes "- 16445 \<le> e" "e \<le> 16384"
  shows "\<exists>b. exp2i_long_double e = Some b \<and>
     (if e = 16384 then long_double_value b = FInf False
      else \<exists>m k. long_double_value b = FFin False m k \<and> valof (FFin False m k) = 2 powi e)"
proof (cases "e < - 16382")
  case True
  with assms long_double_exp2_subnormal [of e] obtain b where b: "exp2i_long_double e = Some b"
    "unat (take_bit 15 (high b)) = 0" "bit (high b) 15 = False" "low b = 2 ^ nat (e + 16445)"
    and lt: "nat (e + 16445) < 63" by blast
  have u: "unat (2 ^ nat (e + 16445) :: bits64) = 2 ^ nat (e + 16445)"
    using lt by (simp add: unat_2p)
  have "long_double_value b = FFin False (2 ^ nat (e + 16445)) (- 16445)"
    using long_double_value_fields [OF b(2-4)] u by simp
  moreover have "valof (FFin False (2 ^ nat (e + 16445)) (- 16445)) = 2 powi e"
    using assms by (simp add: valof_pow2)
  ultimately show ?thesis using b(1) True by auto
next
  case False
  with assms long_double_exp2_normal [of e] obtain b where b: "exp2i_long_double e = Some b"
    "unat (take_bit 15 (high b)) = nat ((e + 16383) mod 32768)" "bit (high b) 15 = False"
    "low b = 2 ^ 63" by auto
  have m: "(e + 16383) mod 32768 = e + 16383" using assms False by simp
  have w: "(2 ^ 63 :: bits64) = 0x8000000000000000" "bit (2 ^ 63 :: bits64) 63"
    "unat (2 ^ 63 :: bits64) = 2 ^ 63"
    by (simp_all add: bit_simps unat_2p)
  show ?thesis
  proof (cases "e = 16384")
    case True
    then show ?thesis using long_double_value_fields [OF b(2-4)] b(1) w by simp
  next
    case ne: False
    have "long_double_value b = FFin False (2 ^ 63) (e - 63)"
      using long_double_value_fields [OF b(2-4)] assms False ne w unfolding m by auto
    moreover have "valof (FFin False (2 ^ 63) (e - 63)) = 2 powi e"
      using valof_pow2 [of 63 "e - 63"] by simp
    ultimately show ?thesis using b(1) ne by auto
  qed
qed

lemma long_double_ilog2_upper:
  assumes "\<not> fp_isinf (long_double_value x)" "\<not> fp_isnan (long_double_value x)"
    and "ilog2_long_double P x = Some l"
  shows "l \<le> 16383"
proof -
  define E where "E = unat (take_bit 15 (high x))"
  have v: "long_double_value x =
    (if E = 32767 then (if low x = 0x8000000000000000 then FInf (bit (high x) 15) else FNaN)
     else if E = 0 then FFin (bit (high x) 15) (unat (low x)) (- 16445)
     else if bit (low x) 63 then FFin (bit (high x) 15) (unat (low x)) (int E - 16446) else FNaN)"
    by (rule long_double_value_fields) (simp_all add: E_def)
  have "E < 2 ^ 15" unfolding E_def unsigned_take_bit_eq by (rule take_bit_nat_less_exp)
  moreover from v assms(1,2) have "E \<noteq> 32767"
    by (auto simp: fp_isinf_def fp_isnan_def split: if_splits)
  ultimately have E: "E \<le> 32766" by simp
  have ex: "long_double_exponent x = int E - 16383"
    by (simp add: long_double_exponent_alt E_def)
  show ?thesis
  proof (cases "E = 0")
    case True
    with assms(3) ex obtain c
      where "count_leading_zeros64 P (low x AND long_double_sig_mask) = Some c"
      and l: "l = - 16383 - (c - 1)"
      by (auto simp: ilog2_long_double_def long_double_ilogb_def long_double_exp_bias_def
          long_double_sig_offset_def)
    from count_leading_zeros64_range [OF this(1)] l show ?thesis by simp
  next
    case False
    with assms(3) ex E show ?thesis
      by (simp add: ilog2_long_double_def long_double_ilogb_def long_double_exp_bias_def)
  qed
qed

subsection \<open>The exponent of ulp and of margin\<close>

lemma powi2_less_iff: "(2::real) powi a < 2 powi b \<longleftrightarrow> a < b"
proof
  assume l: "(2::real) powi a < 2 powi b"
  show "a < b"
  proof (rule ccontr)
    assume "\<not> a < b"
    then have "(2::real) powi b \<le> 2 powi a" by (intro power_int_increasing) simp_all
    with l show False by simp
  qed
next
  assume "a < b"
  then show "(2::real) powi a < 2 powi b" by (intro power_int_strict_increasing) simp_all
qed

lemma powi2_le_iff: "(2::real) powi a \<le> 2 powi b \<longleftrightarrow> a \<le> b"
  using powi2_less_iff [of b a] by (simp add: not_less [symmetric])

lemma powi2_times_pow: "0 \<le> N \<Longrightarrow> (2::real) powi e * 2 ^ nat N = 2 powi (e + N)"
  by (simp add: power_int_add power_int_nonneg_exp)

text \<open>
  What the lemmas of this section assume of an instance \<open>T\<close>: \<open>exp2i\<close> gives the power of
  two on the exponents of the format and infinity one above them, and \<open>ilog2\<close> of a finite
  value does not exceed the largest exponent.
\<close>

lemma ulp_exponent:
  assumes ex2: "\<And>e. min_implicit_exponent (fp_limits T) \<le> e \<Longrightarrow> e \<le> max_exponent (fp_limits T)
      \<Longrightarrow> \<exists>b. fp_exp2i T e = Some b \<and>
           (if e = max_exponent (fp_limits T) then fp_value T b = FInf False
            else \<exists>m k. fp_value T b = FFin False m k \<and> valof (FFin False m k) = 2 powi e)"
    and ilg: "\<And>l. fp_ilog2 T x = Some l \<Longrightarrow> l \<le> max_explicit_exponent (fp_limits T)"
    and lim: "0 \<le> fractional_digits (fp_limits T)"
      "min_implicit_exponent (fp_limits T) \<le> max_explicit_exponent (fp_limits T)"
    and fin: "\<not> isinf T x" "\<not> isnan T x"
    and u: "ulp T x = Some u"
  shows "\<exists>l. fp_ilog2 T x = Some l
     \<and> - 2147483648 \<le> l - fractional_digits (fp_limits T)
     \<and> max (l - fractional_digits (fp_limits T)) (min_implicit_exponent (fp_limits T))
         \<le> max_explicit_exponent (fp_limits T)
     \<and> valof (fp_value T u)
         = 2 powi (max (l - fractional_digits (fp_limits T)) (min_implicit_exponent (fp_limits T)))"
proof -
  let ?fd = "fractional_digits (fp_limits T)" and ?mi = "min_implicit_exponent (fp_limits T)"
  from u fin obtain l e where l: "fp_ilog2 T x = Some l" and c: "cint (l - ?fd) = Some e"
    and b: "fp_exp2i T (max e ?mi) = Some u"
    by (auto simp: ulp_def fractional_precision_def exponent_limit_def
        split: bind_splits)
  from c have e: "e = l - ?fd" "- 2147483648 \<le> l - ?fd"
    by (auto simp: cint_def split: if_splits)
  have up: "max (l - ?fd) ?mi \<le> max_explicit_exponent (fp_limits T)"
    using ilg [OF l] lim by simp
  from up have "max (l - ?fd) ?mi \<le> max_exponent (fp_limits T)"
    "max (l - ?fd) ?mi \<noteq> max_exponent (fp_limits T)"
    unfolding max_explicit_exponent_def by linarith+
  with ex2 [of "max (l - ?fd) ?mi"] b e
  have "\<exists>m k. fp_value T u = FFin False m k \<and> valof (FFin False m k) = 2 powi (max (l - ?fd) ?mi)"
    by auto
  then have "valof (fp_value T u) = 2 powi (max (l - ?fd) ?mi)" by auto
  with l e up show ?thesis by blast
qed

lemma priv_margin_exponent:
  assumes l: "fp_ilog2 T x = Some l"
    and lo: "- 2147483648 \<le> l - fractional_digits (fp_limits T)"
    and N: "0 \<le> N"
    and up: "max (l - fractional_digits (fp_limits T)) (min_implicit_exponent (fp_limits T)) + N
        \<le> 2147483647"
  shows "priv_margin T N x
    = fp_exp2i T (max (l - fractional_digits (fp_limits T))
        (min_implicit_exponent (fp_limits T)) + N)"
proof -
  let ?fd = "fractional_digits (fp_limits T)" and ?mi = "min_implicit_exponent (fp_limits T)"
  have "cint (l - (?fd - N)) = Some (l - ?fd + N)"
    using lo N up by (simp add: cint_def)
  moreover have "(if ?mi + N < l - ?fd + N then l - ?fd + N else ?mi + N) = max (l - ?fd) ?mi + N"
    by (simp add: max_def)
  ultimately show ?thesis
    using l by (simp add: priv_margin_def fractional_precision_def exponent_limit_def)
qed

subsection \<open>Scaling and monotonicity, for any instance\<close>

lemma fp_le_FInf: "fp_le d (FFin s m k) \<Longrightarrow> fp_le d (FInf False)"
  by (cases d) simp_all

lemma fp_le_trans_FFin:
  "fp_le d (FFin s m k) \<Longrightarrow> valof (FFin s m k) \<le> valof (FFin s' m' k')
     \<Longrightarrow> fp_le d (FFin s' m' k')"
  by (cases d) simp_all

lemma margin_scales:
  assumes ex2: "\<And>e. min_implicit_exponent (fp_limits T) \<le> e \<Longrightarrow> e \<le> max_exponent (fp_limits T)
      \<Longrightarrow> \<exists>b. fp_exp2i T e = Some b \<and>
           (if e = max_exponent (fp_limits T) then fp_value T b = FInf False
            else \<exists>m k. fp_value T b = FFin False m k \<and> valof (FFin False m k) = 2 powi e)"
    and ilg: "\<And>l. \<not> isinf T x \<Longrightarrow> \<not> isnan T x \<Longrightarrow> fp_ilog2 T x = Some l
      \<Longrightarrow> l \<le> max_explicit_exponent (fp_limits T)"
    and lim: "0 \<le> fractional_digits (fp_limits T)"
      "min_implicit_exponent (fp_limits T) \<le> max_explicit_exponent (fp_limits T)"
      "max_exponent (fp_limits T) \<le> 2147483647"
    and zero: "\<exists>k. fp_value T (fp_zero T) = FFin False 0 k"
    and N: "0 \<le> N"
    and u: "ulp T x = Some u"
    and rep: "valof (fp_value T u) * 2 ^ nat N < 2 powi max_exponent (fp_limits T)"
  shows "\<exists>m. margin T N x = Some m
     \<and> (\<exists>s n k. fp_value T m = FFin s n k)
     \<and> valof (fp_value T m) = 2 ^ nat N * valof (fp_value T u)"
proof (cases "isinf T x \<or> isnan T x")
  case True
  then have "margin T N x = Some (fp_zero T)" "u = fp_zero T"
    using u by (simp_all add: margin_def ulp_def)
  with zero show ?thesis by (auto simp: valof_FFin)
next
  case False
  then have fin: "\<not> isinf T x" "\<not> isnan T x" by simp_all
  let ?fd = "fractional_digits (fp_limits T)" and ?mi = "min_implicit_exponent (fp_limits T)"
  from ulp_exponent [of T x u, OF ex2 ilg [OF fin] lim(1,2) fin u]
  obtain l where l: "fp_ilog2 T x = Some l" and lo: "- 2147483648 \<le> l - ?fd"
    and v: "valof (fp_value T u) = 2 powi (max (l - ?fd) ?mi)" by blast
  let ?E = "max (l - ?fd) ?mi"
  from rep have "(2::real) powi (?E + N) < 2 powi max_exponent (fp_limits T)"
    unfolding v using N by (simp add: powi2_times_pow)
  then have lt: "?E + N < max_exponent (fp_limits T)" by (simp add: powi2_less_iff)
  have "priv_margin T N x = fp_exp2i T (?E + N)"
    using lt lim(3) by (intro priv_margin_exponent [OF l lo N]) linarith
  then have m: "margin T N x = fp_exp2i T (?E + N)"
    using fin by (simp add: margin_eq_priv_margin)
  have "?mi \<le> ?E + N" using N by simp
  with ex2 [of "?E + N"] lt obtain b n k where b: "fp_exp2i T (?E + N) = Some b"
    "fp_value T b = FFin False n k" "valof (FFin False n k) = 2 powi (?E + N)"
    by auto
  have "valof (fp_value T b) = 2 ^ nat N * valof (fp_value T u)"
    unfolding v b using N powi2_times_pow [of N ?E] by (simp add: mult.commute)
  with m b show ?thesis by auto
qed

lemma within_margin_mono:
  assumes ex2: "\<And>e. min_implicit_exponent (fp_limits T) \<le> e \<Longrightarrow> e \<le> max_exponent (fp_limits T)
      \<Longrightarrow> \<exists>b. fp_exp2i T e = Some b \<and>
           (if e = max_exponent (fp_limits T) then fp_value T b = FInf False
            else \<exists>m k. fp_value T b = FFin False m k \<and> valof (FFin False m k) = 2 powi e)"
    and ilg: "\<And>y l. \<not> isinf T y \<Longrightarrow> \<not> isnan T y \<Longrightarrow> fp_ilog2 T y = Some l
      \<Longrightarrow> l \<le> max_explicit_exponent (fp_limits T)"
    and lim: "0 \<le> fractional_digits (fp_limits T)"
      "min_implicit_exponent (fp_limits T) \<le> max_explicit_exponent (fp_limits T)"
      "max_exponent (fp_limits T) \<le> 2147483647"
    and fabs: "\<And>y. fp_value T (fp_fabs T y) = fp_abs (fp_value T y)"
    and N: "0 \<le> N"
    and t: "within_margin T N a b = Some True"
    and u: "ulp T (std_max T (fp_fabs T a) (fp_fabs T b)) = Some u"
    and rep: "valof (fp_value T u) * 2 ^ nat (N + 1) \<le> 2 powi max_exponent (fp_limits T)"
  shows "within_margin T (N + 1) a b = Some True"
proof (cases "fp_eq (fp_value T a) (fp_value T b)")
  case True
  then show ?thesis by (simp add: within_margin_def)
next
  case ne: False
  let ?x = "std_max T (fp_fabs T a) (fp_fabs T b)"
  let ?d = "fp_abs (fp_sub (fp_limits T) (fp_value T a) (fp_value T b))"
  from t ne have nin: "\<not> (isinf T a \<or> isinf T b \<or> isnan T a \<or> isnan T b)"
    by (auto simp: within_margin_def split: if_splits)
  then have fin: "\<not> isinf T ?x" "\<not> isnan T ?x"
    using std_max_cases [of T "fp_fabs T a" "fp_fabs T b"]
    by (auto simp: isinf_def isnan_def fabs)
  let ?fd = "fractional_digits (fp_limits T)" and ?mi = "min_implicit_exponent (fp_limits T)"
  from ulp_exponent [of T ?x u, OF ex2 ilg [OF fin] lim(1,2) fin u]
  obtain l where l: "fp_ilog2 T ?x = Some l" and lo: "- 2147483648 \<le> l - ?fd"
    and v: "valof (fp_value T u) = 2 powi (max (l - ?fd) ?mi)" by blast
  let ?E = "max (l - ?fd) ?mi"
  have N1: "0 \<le> N + 1" using N by simp
  from rep have "(2::real) powi (?E + (N + 1)) \<le> 2 powi max_exponent (fp_limits T)"
    unfolding v using powi2_times_pow [OF N1, of ?E] by simp
  then have le: "?E + (N + 1) \<le> max_exponent (fp_limits T)" by (simp add: powi2_le_iff)
  have pN: "priv_margin T N ?x = fp_exp2i T (?E + N)"
    using le lim(3) by (intro priv_margin_exponent [OF l lo N]) linarith
  have pN1: "priv_margin T (N + 1) ?x = fp_exp2i T (?E + (N + 1))"
    using le lim(3) by (intro priv_margin_exponent [OF l lo N1]) linarith
  have "?mi \<le> ?E + N" "?E + N \<le> max_exponent (fp_limits T)"
    "?E + N \<noteq> max_exponent (fp_limits T)"
    using N le by simp_all
  with ex2 [of "?E + N"] obtain b0 n k where b0: "fp_exp2i T (?E + N) = Some b0"
    "fp_value T b0 = FFin False n k" "valof (FFin False n k) = 2 powi (?E + N)"
    by auto
  have "?mi \<le> ?E + (N + 1)" using N by simp
  with ex2 [of "?E + (N + 1)"] le obtain b1 where b1: "fp_exp2i T (?E + (N + 1)) = Some b1"
    "if ?E + (N + 1) = max_exponent (fp_limits T) then fp_value T b1 = FInf False
     else \<exists>m k. fp_value T b1 = FFin False m k \<and> valof (FFin False m k) = 2 powi (?E + (N + 1))"
    by blast
  from t ne nin pN b0 have d: "fp_le ?d (FFin False n k)"
    by (simp add: within_margin_def)
  have "fp_le ?d (fp_value T b1)"
  proof (cases "?E + (N + 1) = max_exponent (fp_limits T)")
    case True
    with b1(2) d show ?thesis by (simp add: fp_le_FInf)
  next
    case False
    with b1(2) obtain m' k' where m': "fp_value T b1 = FFin False m' k'"
      "valof (FFin False m' k') = 2 powi (?E + (N + 1))" by auto
    have "valof (FFin False n k) \<le> valof (FFin False m' k')"
      unfolding b0(3) m'(2) by (simp add: powi2_le_iff)
    with d m'(1) show ?thesis by (simp add: fp_le_trans_FFin)
  qed
  with ne nin pN1 b1(1) show ?thesis by (simp add: within_margin_def)
qed

subsection \<open>The three instances\<close>

lemma float_instance:
  "\<And>e. min_implicit_exponent (fp_limits (float_type P)) \<le> e
      \<Longrightarrow> e \<le> max_exponent (fp_limits (float_type P))
      \<Longrightarrow> \<exists>b. fp_exp2i (float_type P) e = Some b \<and>
           (if e = max_exponent (fp_limits (float_type P))
            then fp_value (float_type P) b = FInf False
            else \<exists>m k. fp_value (float_type P) b = FFin False m k
                   \<and> valof (FFin False m k) = 2 powi e)"
  "\<And>y l. \<not> isinf (float_type P) y \<Longrightarrow> \<not> isnan (float_type P) y
      \<Longrightarrow> fp_ilog2 (float_type P) y = Some l
      \<Longrightarrow> l \<le> max_explicit_exponent (fp_limits (float_type P))"
  "0 \<le> fractional_digits (fp_limits (float_type P))"
  "min_implicit_exponent (fp_limits (float_type P))
     \<le> max_explicit_exponent (fp_limits (float_type P))"
  "max_exponent (fp_limits (float_type P)) \<le> 2147483647"
  "\<exists>k. fp_value (float_type P) (fp_zero (float_type P)) = FFin False 0 k"
proof -
  show "\<exists>b. fp_exp2i (float_type P) e = Some b \<and>
           (if e = max_exponent (fp_limits (float_type P))
            then fp_value (float_type P) b = FInf False
            else \<exists>m k. fp_value (float_type P) b = FFin False m k
                   \<and> valof (FFin False m k) = 2 powi e)"
    if "min_implicit_exponent (fp_limits (float_type P)) \<le> e"
      "e \<le> max_exponent (fp_limits (float_type P))" for e
    using that float_exp2i_value [of e]
    by (auto simp: float_type_def limits_defs split: if_splits)
  show "l \<le> max_explicit_exponent (fp_limits (float_type P))"
    if "\<not> isinf (float_type P) y" "\<not> isnan (float_type P) y"
      "fp_ilog2 (float_type P) y = Some l" for y l
    using that float_ilog2_upper [of y P l]
    by (simp add: float_type_def limits_defs isinf_def isnan_def)
  show "\<exists>k. fp_value (float_type P) (fp_zero (float_type P)) = FFin False 0 k"
    by (simp add: float_type_def float_value_def)
qed (simp_all add: float_type_def limits_defs)

lemma double_instance:
  "\<And>e. min_implicit_exponent (fp_limits (double_type P)) \<le> e
      \<Longrightarrow> e \<le> max_exponent (fp_limits (double_type P))
      \<Longrightarrow> \<exists>b. fp_exp2i (double_type P) e = Some b \<and>
           (if e = max_exponent (fp_limits (double_type P))
            then fp_value (double_type P) b = FInf False
            else \<exists>m k. fp_value (double_type P) b = FFin False m k
                   \<and> valof (FFin False m k) = 2 powi e)"
  "\<And>y l. \<not> isinf (double_type P) y \<Longrightarrow> \<not> isnan (double_type P) y
      \<Longrightarrow> fp_ilog2 (double_type P) y = Some l
      \<Longrightarrow> l \<le> max_explicit_exponent (fp_limits (double_type P))"
  "0 \<le> fractional_digits (fp_limits (double_type P))"
  "min_implicit_exponent (fp_limits (double_type P))
     \<le> max_explicit_exponent (fp_limits (double_type P))"
  "max_exponent (fp_limits (double_type P)) \<le> 2147483647"
  "\<exists>k. fp_value (double_type P) (fp_zero (double_type P)) = FFin False 0 k"
proof -
  show "\<exists>b. fp_exp2i (double_type P) e = Some b \<and>
           (if e = max_exponent (fp_limits (double_type P))
            then fp_value (double_type P) b = FInf False
            else \<exists>m k. fp_value (double_type P) b = FFin False m k
                   \<and> valof (FFin False m k) = 2 powi e)"
    if "min_implicit_exponent (fp_limits (double_type P)) \<le> e"
      "e \<le> max_exponent (fp_limits (double_type P))" for e
    using that double_exp2i_value [of e]
    by (auto simp: double_type_def limits_defs split: if_splits)
  show "l \<le> max_explicit_exponent (fp_limits (double_type P))"
    if "\<not> isinf (double_type P) y" "\<not> isnan (double_type P) y"
      "fp_ilog2 (double_type P) y = Some l" for y l
    using that double_ilog2_upper [of y P l]
    by (simp add: double_type_def limits_defs isinf_def isnan_def)
  show "\<exists>k. fp_value (double_type P) (fp_zero (double_type P)) = FFin False 0 k"
    by (simp add: double_type_def double_value_def)
qed (simp_all add: double_type_def limits_defs)

lemma long_double_instance:
  "\<And>e. min_implicit_exponent (fp_limits (long_double_type P)) \<le> e
      \<Longrightarrow> e \<le> max_exponent (fp_limits (long_double_type P))
      \<Longrightarrow> \<exists>b. fp_exp2i (long_double_type P) e = Some b \<and>
           (if e = max_exponent (fp_limits (long_double_type P))
            then fp_value (long_double_type P) b = FInf False
            else \<exists>m k. fp_value (long_double_type P) b = FFin False m k
                   \<and> valof (FFin False m k) = 2 powi e)"
  "\<And>y l. \<not> isinf (long_double_type P) y \<Longrightarrow> \<not> isnan (long_double_type P) y
      \<Longrightarrow> fp_ilog2 (long_double_type P) y = Some l
      \<Longrightarrow> l \<le> max_explicit_exponent (fp_limits (long_double_type P))"
  "0 \<le> fractional_digits (fp_limits (long_double_type P))"
  "min_implicit_exponent (fp_limits (long_double_type P))
     \<le> max_explicit_exponent (fp_limits (long_double_type P))"
  "max_exponent (fp_limits (long_double_type P)) \<le> 2147483647"
  "\<exists>k. fp_value (long_double_type P) (fp_zero (long_double_type P)) = FFin False 0 k"
proof -
  show "\<exists>b. fp_exp2i (long_double_type P) e = Some b \<and>
           (if e = max_exponent (fp_limits (long_double_type P))
            then fp_value (long_double_type P) b = FInf False
            else \<exists>m k. fp_value (long_double_type P) b = FFin False m k
                   \<and> valof (FFin False m k) = 2 powi e)"
    if "min_implicit_exponent (fp_limits (long_double_type P)) \<le> e"
      "e \<le> max_exponent (fp_limits (long_double_type P))" for e
    using that long_double_exp2i_value [of e]
    by (auto simp: long_double_type_def limits_defs split: if_splits)
  show "l \<le> max_explicit_exponent (fp_limits (long_double_type P))"
    if "\<not> isinf (long_double_type P) y" "\<not> isnan (long_double_type P) y"
      "fp_ilog2 (long_double_type P) y = Some l" for y l
    using that long_double_ilog2_upper [of y P l]
    by (simp add: long_double_type_def limits_defs isinf_def isnan_def)
  show "\<exists>k. fp_value (long_double_type P) (fp_zero (long_double_type P)) = FFin False 0 k"
    by (simp add: long_double_type_def long_double_value_def)
qed (simp_all add: long_double_type_def limits_defs)

lemma margin_0_eq_ulp: "margin T 0 x = ulp T x"
  by (simp add: margin_def ulp_def)

text \<open>
  Claim C7, amended: \<^verbatim>\<open>margin<0>(x)\<close> is \<^verbatim>\<open>ulp(x)\<close> for every \<open>x\<close>; and for
  \<open>N \<ge> 0\<close> and every \<open>x\<close> on which \<^verbatim>\<open>ulp\<close> has a result \<open>u\<close>, whenever \<open>2 ^ N * u\<close>
  is below \<open>2 ^ max_exponent\<close>, that is, representable, \<^verbatim>\<open>margin<N>(x)\<close> is the finite
  value \<open>2 ^ N * u\<close>. In each of the three formats.
\<close>

theorem margin_scales_ulp:
  "margin (float_type P) 0 x = ulp (float_type P) x
   \<and> (0 \<le> N \<and> ulp (float_type P) x = Some u
        \<and> valof (float_value u) * 2 ^ nat N < 2 powi max_exponent float_limits \<longrightarrow>
      (\<exists>m. margin (float_type P) N x = Some m \<and> (\<exists>s n k. float_value m = FFin s n k)
         \<and> valof (float_value m) = 2 ^ nat N * valof (float_value u)))
   \<and> margin (double_type P) 0 y = ulp (double_type P) y
   \<and> (0 \<le> N \<and> ulp (double_type P) y = Some v
        \<and> valof (double_value v) * 2 ^ nat N < 2 powi max_exponent double_limits \<longrightarrow>
      (\<exists>m. margin (double_type P) N y = Some m \<and> (\<exists>s n k. double_value m = FFin s n k)
         \<and> valof (double_value m) = 2 ^ nat N * valof (double_value v)))
   \<and> margin (long_double_type P) 0 z = ulp (long_double_type P) z
   \<and> (0 \<le> N \<and> ulp (long_double_type P) z = Some w
        \<and> valof (long_double_value w) * 2 ^ nat N < 2 powi max_exponent long_double_limits \<longrightarrow>
      (\<exists>m. margin (long_double_type P) N z = Some m
         \<and> (\<exists>s n k. long_double_value m = FFin s n k)
         \<and> valof (long_double_value m) = 2 ^ nat N * valof (long_double_value w)))"
proof -
  have f: "fp_limits (float_type P) = float_limits" "fp_value (float_type P) = float_value"
    and d: "fp_limits (double_type P) = double_limits" "fp_value (double_type P) = double_value"
    and l: "fp_limits (long_double_type P) = long_double_limits"
      "fp_value (long_double_type P) = long_double_value"
    by (simp_all add: float_type_def double_type_def long_double_type_def)
  show ?thesis
    using margin_scales [of "float_type P" x N u, OF float_instance]
      margin_scales [of "double_type P" y N v, OF double_instance]
      margin_scales [of "long_double_type P" z N w, OF long_double_instance]
    unfolding f d l by (simp add: margin_0_eq_ulp)
qed

text \<open>
  Claim C7, as stated, for every \<open>N \<ge> 0\<close>: it fails for \<open>N = 25\<close> at the largest finite
  \<^verbatim>\<open>float\<close>, \<open>0x7F7FFFFF\<close>. Its \<^verbatim>\<open>ulp\<close> is \<open>2 ^ 104\<close>; the exponent \<open>129\<close> of the
  margin does not fit the exponent field, \<^verbatim>\<open>exp2\<close> masks it to 0, and \<^verbatim>\<open>margin<25>\<close>
  is \<open>0.0\<close>.
\<close>

theorem margin_wraps_counterexample:
  "ulp (float_type \<lparr>has_builtin_clz = True, little_endian = True\<rparr>) 0x7F7FFFFF = Some 0x73800000
   \<and> margin (float_type \<lparr>has_builtin_clz = True, little_endian = True\<rparr>) 25 0x7F7FFFFF = Some 0
   \<and> valof (float_value 0x73800000) = 2 ^ 104
   \<and> valof (float_value 0) \<noteq> 2 ^ 25 * valof (float_value 0x73800000)"
  by (simp add: template_defs float_defs limits_defs)

theorem margin_scales_ulp_witness:
  "(\<exists>m. margin (float_type \<lparr>has_builtin_clz = True, little_endian = True\<rparr>) 1 0x3F800000 = Some m
        \<and> (\<exists>s n k. float_value m = FFin s n k)
        \<and> valof (float_value m) = 2 ^ nat 1 * valof (float_value 0x34000000))
   \<and> (\<exists>m. margin (double_type \<lparr>has_builtin_clz = True, little_endian = True\<rparr>) 1
            0x3FF0000000000000 = Some m
        \<and> (\<exists>s n k. double_value m = FFin s n k)
        \<and> valof (double_value m) = 2 ^ nat 1 * valof (double_value 0x3CB0000000000000))
   \<and> (\<exists>m. margin (long_double_type \<lparr>has_builtin_clz = True, little_endian = True\<rparr>) 1
            \<lparr>low = 0x8000000000000000, high = 0x3FFF\<rparr> = Some m
        \<and> (\<exists>s n k. long_double_value m = FFin s n k)
        \<and> valof (long_double_value m)
            = 2 ^ nat 1 * valof (long_double_value \<lparr>low = 0x8000000000000000, high = 0x3FC0\<rparr>))"
proof -
  let ?P = "\<lparr>has_builtin_clz = True, little_endian = True\<rparr>"
  have h: "ulp (float_type ?P) 0x3F800000 = Some 0x34000000"
    "valof (float_value 0x34000000) * 2 ^ nat 1 < 2 powi max_exponent float_limits"
    "ulp (double_type ?P) 0x3FF0000000000000 = Some 0x3CB0000000000000"
    "valof (double_value 0x3CB0000000000000) * 2 ^ nat 1 < 2 powi max_exponent double_limits"
    "ulp (long_double_type ?P) \<lparr>low = 0x8000000000000000, high = 0x3FFF\<rparr>
       = Some \<lparr>low = 0x8000000000000000, high = 0x3FC0\<rparr>"
    "valof (long_double_value \<lparr>low = 0x8000000000000000, high = 0x3FC0\<rparr>) * 2 ^ nat 1
       < 2 powi max_exponent long_double_limits"
    by (simp_all add: template_defs float_defs double_defs long_double_defs limits_defs)
  show ?thesis
    using margin_scales_ulp [where P = ?P and N = 1 and x = "0x3F800000" and u = "0x34000000"
        and y = "0x3FF0000000000000" and v = "0x3CB0000000000000"
        and z = "\<lparr>low = 0x8000000000000000, high = 0x3FFF\<rparr>"
        and w = "\<lparr>low = 0x8000000000000000, high = 0x3FC0\<rparr>"] h
    by simp
qed

text \<open>
  Claim C8, amended: for \<open>N \<ge> 0\<close> and \<open>a\<close>, \<open>b\<close> of one format, if \<^verbatim>\<open>proximal<N>(a, b)\<close>
  returns true and \<open>2 ^ (N + 1)\<close> times \<^verbatim>\<open>ulp\<close> of the operand of larger magnitude does
  not exceed \<open>2 ^ max_exponent\<close> (where \<^verbatim>\<open>exp2i\<close> gives infinity), then
  \<^verbatim>\<open>proximal<N + 1>(a, b)\<close> returns true. In each of the three formats.
\<close>

theorem proximal_monotone:
  "(0 \<le> N \<and> proximal (float_type P) N a b = Some True
      \<and> ulp (float_type P)
           (std_max (float_type P) (fp_fabs (float_type P) a) (fp_fabs (float_type P) b)) = Some u
      \<and> valof (float_value u) * 2 ^ nat (N + 1) \<le> 2 powi max_exponent float_limits \<longrightarrow>
    proximal (float_type P) (N + 1) a b = Some True)
   \<and> (0 \<le> N \<and> proximal (double_type P) N c d = Some True
      \<and> ulp (double_type P)
           (std_max (double_type P) (fp_fabs (double_type P) c) (fp_fabs (double_type P) d))
          = Some v
      \<and> valof (double_value v) * 2 ^ nat (N + 1) \<le> 2 powi max_exponent double_limits \<longrightarrow>
    proximal (double_type P) (N + 1) c d = Some True)
   \<and> (0 \<le> N \<and> proximal (long_double_type P) N e f = Some True
      \<and> ulp (long_double_type P)
           (std_max (long_double_type P) (fp_fabs (long_double_type P) e)
              (fp_fabs (long_double_type P) f)) = Some w
      \<and> valof (long_double_value w) * 2 ^ nat (N + 1) \<le> 2 powi max_exponent long_double_limits
      \<longrightarrow> proximal (long_double_type P) (N + 1) e f = Some True)"
proof -
  have t: "fp_limits (float_type P) = float_limits" "fp_value (float_type P) = float_value"
    "fp_limits (double_type P) = double_limits" "fp_value (double_type P) = double_value"
    "fp_limits (long_double_type P) = long_double_limits"
    "fp_value (long_double_type P) = long_double_value"
    by (simp_all add: float_type_def double_type_def long_double_type_def)
  have 1: "within_margin (float_type P) (N + 1) a b = Some True"
    if "0 \<le> N" "within_margin (float_type P) N a b = Some True"
      "ulp (float_type P)
         (std_max (float_type P) (fp_fabs (float_type P) a) (fp_fabs (float_type P) b)) = Some u"
      "valof (fp_value (float_type P) u) * 2 ^ nat (N + 1)
         \<le> 2 powi max_exponent (fp_limits (float_type P))"
    by (rule within_margin_mono [where u = u])
      (rule float_instance fabs_value that | assumption)+
  have 2: "within_margin (double_type P) (N + 1) c d = Some True"
    if "0 \<le> N" "within_margin (double_type P) N c d = Some True"
      "ulp (double_type P)
         (std_max (double_type P) (fp_fabs (double_type P) c) (fp_fabs (double_type P) d))
        = Some v"
      "valof (fp_value (double_type P) v) * 2 ^ nat (N + 1)
         \<le> 2 powi max_exponent (fp_limits (double_type P))"
    by (rule within_margin_mono [where u = v])
      (rule double_instance fabs_value that | assumption)+
  have 3: "within_margin (long_double_type P) (N + 1) e f = Some True"
    if "0 \<le> N" "within_margin (long_double_type P) N e f = Some True"
      "ulp (long_double_type P)
         (std_max (long_double_type P) (fp_fabs (long_double_type P) e)
            (fp_fabs (long_double_type P) f)) = Some w"
      "valof (fp_value (long_double_type P) w) * 2 ^ nat (N + 1)
         \<le> 2 powi max_exponent (fp_limits (long_double_type P))"
    by (rule within_margin_mono [where u = w])
      (rule long_double_instance fabs_value that | assumption)+
  show ?thesis
    using 1 2 3 unfolding t proximal_def by blast
qed

text \<open>
  Claim C8, as stated, for every \<open>N \<ge> 0\<close>: it fails from \<open>N = 24\<close> to \<open>N = 25\<close> for the
  \<^verbatim>\<open>float\<close> values \<open>0x7F7FFFFF\<close> (the largest finite one) and \<open>0x7F000000\<close>
  (\<open>2 ^ 127\<close>): the margin is infinity for 24 and \<open>0.0\<close> for 25.
\<close>

theorem proximal_monotone_counterexample:
  "proximal (float_type \<lparr>has_builtin_clz = True, little_endian = True\<rparr>) 24
      0x7F7FFFFF 0x7F000000 = Some True
   \<and> proximal (float_type \<lparr>has_builtin_clz = True, little_endian = True\<rparr>) 25
      0x7F7FFFFF 0x7F000000 = Some False"
  by (simp add: template_defs float_defs limits_defs Let_def compute_floorlog)


theorem proximal_monotone_witness:
  "proximal (float_type \<lparr>has_builtin_clz = True, little_endian = True\<rparr>) (0 + 1)
      0x3F800000 0x3F800001 = Some True
   \<and> proximal (double_type \<lparr>has_builtin_clz = True, little_endian = True\<rparr>) (0 + 1)
      0x3FF0000000000000 0x3FF0000000000001 = Some True
   \<and> proximal (long_double_type \<lparr>has_builtin_clz = True, little_endian = True\<rparr>) (0 + 1)
      \<lparr>low = 0x8000000000000000, high = 0x3FFF\<rparr>
      \<lparr>low = 0x8000000000000001, high = 0x3FFF\<rparr> = Some True"
proof -
  let ?P = "\<lparr>has_builtin_clz = True, little_endian = True\<rparr>"
  have h: "(0::int) \<le> 0"
    "proximal (float_type ?P) 0 0x3F800000 0x3F800001 = Some True"
    "ulp (float_type ?P)
       (std_max (float_type ?P) (fp_fabs (float_type ?P) 0x3F800000)
          (fp_fabs (float_type ?P) 0x3F800001)) = Some 0x34000000"
    "valof (float_value 0x34000000) * 2 ^ nat (0 + 1) \<le> 2 powi max_exponent float_limits"
    "proximal (double_type ?P) 0 0x3FF0000000000000 0x3FF0000000000001 = Some True"
    "ulp (double_type ?P)
       (std_max (double_type ?P) (fp_fabs (double_type ?P) 0x3FF0000000000000)
          (fp_fabs (double_type ?P) 0x3FF0000000000001)) = Some 0x3CB0000000000000"
    "valof (double_value 0x3CB0000000000000) * 2 ^ nat (0 + 1)
       \<le> 2 powi max_exponent double_limits"
    "proximal (long_double_type ?P) 0 \<lparr>low = 0x8000000000000000, high = 0x3FFF\<rparr>
       \<lparr>low = 0x8000000000000001, high = 0x3FFF\<rparr> = Some True"
    "ulp (long_double_type ?P)
       (std_max (long_double_type ?P)
          (fp_fabs (long_double_type ?P) \<lparr>low = 0x8000000000000000, high = 0x3FFF\<rparr>)
          (fp_fabs (long_double_type ?P) \<lparr>low = 0x8000000000000001, high = 0x3FFF\<rparr>))
       = Some \<lparr>low = 0x8000000000000000, high = 0x3FC0\<rparr>"
    "valof (long_double_value \<lparr>low = 0x8000000000000000, high = 0x3FC0\<rparr>) * 2 ^ nat (0 + 1)
       \<le> 2 powi max_exponent long_double_limits"
    by (simp_all add: template_defs float_defs double_defs long_double_defs limits_defs Let_def
        compute_floorlog)
  show ?thesis
    using proximal_monotone [where P = ?P and N = 0 and a = "0x3F800000" and b = "0x3F800001"
        and u = "0x34000000" and c = "0x3FF0000000000000" and d = "0x3FF0000000000001"
        and v = "0x3CB0000000000000"
        and e = "\<lparr>low = 0x8000000000000000, high = 0x3FFF\<rparr>"
        and f = "\<lparr>low = 0x8000000000000001, high = 0x3FFF\<rparr>"
        and w = "\<lparr>low = 0x8000000000000000, high = 0x3FC0\<rparr>"] h
    by blast
qed

subsection \<open>One bit pattern for one value\<close>








subsection \<open>Exchanging the operands\<close>










subsection \<open>The default templates and the specializations\<close>







subsection \<open>Where \<^verbatim>\<open>ilog2\<close> and the margin have a result\<close>

text \<open>
  \<^verbatim>\<open>ilog2\<close> has a result on every finite \<^verbatim>\<open>float\<close>, and on every finite \<^verbatim>\<open>double\<close> and
  \<^verbatim>\<open>long double\<close> that is not subnormal; \<^verbatim>\<open>_margin\<close> then has one for every \<open>N \<ge> 0\<close>
  short of the overflow of an \<^verbatim>\<open>int\<close>.
\<close>

lemma instance_fields:
  "fp_limits (float_type P) = float_limits" "fp_value (float_type P) = float_value"
  "fp_exp2i (float_type P) = exp2i_float" "fp_ilog2 (float_type P) = ilog2_float P"
  "fp_zero (float_type P) = 0"
  "fp_limits (double_type P) = double_limits" "fp_value (double_type P) = double_value"
  "fp_exp2i (double_type P) = exp2i_double" "fp_ilog2 (double_type P) = ilog2_double P"
  "fp_zero (double_type P) = 0"
  "fp_limits (long_double_type P) = long_double_limits"
  "fp_value (long_double_type P) = long_double_value"
  "fp_exp2i (long_double_type P) = exp2i_long_double"
  "fp_ilog2 (long_double_type P) = ilog2_long_double P"
  "fp_zero (long_double_type P) = \<lparr>low = 0, high = 0\<rparr>"
  by (simp_all add: float_type_def double_type_def long_double_type_def)












subsection \<open>The three steps of the comparison\<close>











subsection \<open>The comparison of subnormal \<^verbatim>\<open>double\<close> values\<close>

lemma double_subnormal_no_result:
  "proximal (double_type \<lparr>has_builtin_clz = True, little_endian = True\<rparr>) 0 1 3 = None"
  "proximal (double_type \<lparr>has_builtin_clz = True, little_endian = False\<rparr>) 0 1 3 = None"
proof -
  have v: "double_value 1 = FFin False 1 (- 1074)" "double_value 3 = FFin False 3 (- 1074)"
    by (simp_all add: double_value_def)
  have w: "words P 3 k = (if (k = 0) = little_endian P then 3 else 0)" for P k
    by (simp add: words_def)
  have c: "count_leading_zeros64 \<lparr>has_builtin_clz = True, little_endian = le\<rparr> 3 = None" for le
    by (simp add: count_leading_zeros64_def w builtin_clz_def)
  have i: "ilog2_double \<lparr>has_builtin_clz = True, little_endian = le\<rparr> 3 = None" for le
    by (simp add: ilog2_double_def double_ilogb_def double_exponent_alt double_exp_bias_def
        double_mask_eqs c flip: take_bit_eq_mask)
  show "proximal (double_type \<lparr>has_builtin_clz = True, little_endian = True\<rparr>) 0 1 3 = None"
    "proximal (double_type \<lparr>has_builtin_clz = True, little_endian = False\<rparr>) 0 1 3 = None"
    by (simp_all add: proximal_def within_margin_def priv_margin_def std_max_def isinf_def
        isnan_def fp_isinf_def fp_isnan_def instance_fields double_type_def v i valof_FFin)
qed

lemma clz_loop_top_bit: "clz_loop 0x80000002 0 = Some 0"
  by (simp add: clz_loop.simps)

lemma double_subnormal_wrong_margin:
  "proximal (double_type \<lparr>has_builtin_clz = False, little_endian = True\<rparr>) 0
      0x80000000 0x80000002 = Some True"
  "margin (double_type \<lparr>has_builtin_clz = False, little_endian = True\<rparr>) 0 0x80000002
     = Some 0x800"
proof -
  let ?P = "\<lparr>has_builtin_clz = False, little_endian = True\<rparr>"
  have v: "double_value 0x80000000 = FFin False 2147483648 (- 1074)"
    "double_value 0x80000002 = FFin False 2147483650 (- 1074)"
    "double_value 0x800 = FFin False 2048 (- 1074)"
    by (simp_all add: double_value_def)
  have c: "count_leading_zeros64 ?P 0x80000002 = Some 0"
    by (simp add: count_leading_zeros64_def clz_loop_top_bit)
  have i: "ilog2_double ?P 0x80000002 = Some (- 1011)"
    by (simp add: ilog2_double_def double_ilogb_def double_exponent_alt double_exp_bias_def
        double_sig_offset_def double_mask_eqs c flip: take_bit_eq_mask)
  have m: "priv_margin (double_type ?P) 0 0x80000002 = Some 0x800"
    by (simp add: priv_margin_def instance_fields i cint_def limits_defs exp2i_double_def
        double_exp2_def double_sig_integer_bit_def)
  show "margin (double_type ?P) 0 0x80000002 = Some 0x800"
    using m by (simp add: margin_eq_priv_margin isinf_def isnan_def instance_fields v
        fp_isinf_def fp_isnan_def)
  have x: "std_max (double_type ?P) (fp_fabs (double_type ?P) 0x80000000)
      (fp_fabs (double_type ?P) 0x80000002) = 0x80000002"
    by (simp add: std_max_def double_type_def v valof_FFin)
  have d: "fp_abs (fp_sub double_limits (FFin False 2147483648 (- 1074))
      (FFin False 2147483650 (- 1074))) = FFin False 2 (- 1074)"
    by (simp add: fp_round_def Let_def compute_floorlog limits_defs)
  have le: "fp_le (FFin False 2 (- 1074)) (FFin False 2048 (- 1074))"
    by (simp add: valof_FFin)
  show "proximal (double_type ?P) 0 0x80000000 0x80000002 = Some True"
    unfolding proximal_def within_margin_def x m
    using le by (simp add: instance_fields v d isinf_def isnan_def fp_isinf_def fp_isnan_def
        valof_FFin del: fp_le.simps fp_sub.simps)
qed

text \<open>
  Claim C1: for every pair of values of a format the comparator is to return the boolean
  of the three steps. For \<^verbatim>\<open>double\<close> values whose larger one is subnormal it does not.
  With \<^verbatim>\<open>__builtin_clz\<close>, \<^verbatim>\<open>proximal<0>\<close> has no defined result on the patterns \<open>1\<close>
  and \<open>3\<close>, that is \<open>2 ^ -1074\<close> and \<open>3 * 2 ^ -1074\<close>, on either byte order: the third
  step takes \<^verbatim>\<open>ilog2\<close> of the larger one, and \<^verbatim>\<open>count_leading_zeros\<close> of its significand
  evaluates \<^verbatim>\<open>__builtin_clz(0)\<close>. With the loop body, \<^verbatim>\<open>proximal<0>\<close> returns true on the
  patterns \<open>0x80000000\<close> and \<open>0x80000002\<close>, two subnormal values whose difference is two
  units in the last place, \<open>2 * 2 ^ -1074\<close>: the loop counts no leading zero, and the
  margin is \<open>2048\<close> units instead of one.
\<close>

theorem proximal_double_subnormal:
  "proximal (double_type \<lparr>has_builtin_clz = True, little_endian = True\<rparr>) 0 1 3 = None
   \<and> proximal (double_type \<lparr>has_builtin_clz = True, little_endian = False\<rparr>) 0 1 3 = None
   \<and> proximal (double_type \<lparr>has_builtin_clz = False, little_endian = True\<rparr>) 0
        0x80000000 0x80000002 = Some True
   \<and> double_value 0x80000000 = FFin False 2147483648 (- 1074)
   \<and> double_value 0x80000002 = FFin False 2147483650 (- 1074)
   \<and> fp_abs (fp_sub double_limits (double_value 0x80000000) (double_value 0x80000002))
       = FFin False 2 (- 1074)
   \<and> map_option double_value
        (margin (double_type \<lparr>has_builtin_clz = False, little_endian = True\<rparr>) 0 0x80000002)
       = Some (FFin False 2048 (- 1074))"
proof -
  have v: "double_value 0x80000000 = FFin False 2147483648 (- 1074)"
    "double_value 0x80000002 = FFin False 2147483650 (- 1074)"
    "double_value 0x800 = FFin False 2048 (- 1074)"
    by (simp_all add: double_value_def)
  have "fp_abs (fp_sub double_limits (FFin False 2147483648 (- 1074))
      (FFin False 2147483650 (- 1074))) = FFin False 2 (- 1074)"
    by (simp add: fp_round_def Let_def compute_floorlog limits_defs)
  then show ?thesis
    using v double_subnormal_no_result double_subnormal_wrong_margin by simp
qed

subsection \<open>The comparator returns, and the same in both orders\<close>






subsection \<open>The default templates and the specializations, from \<^verbatim>\<open>ulp\<close> to the comparator\<close>










lemma classes_finite:
  "\<not> fp_isinf v \<Longrightarrow> \<not> fp_isnan v \<Longrightarrow> \<exists>s m e. v = FFin s m e"
  by (cases v) (simp_all add: fp_isinf_def fp_isnan_def)


































text \<open>
  The free function \<^verbatim>\<open>ulp\<close> has no case for a zero, which the accessor
  \<^verbatim>\<open>proximal<N>::ulp\<close> has. With the specialization it returns the smallest subnormal
  all the same; with the default templates it computes \<^verbatim>\<open>FP_ILOGB0 - 23\<close>, which is
  not an \<^verbatim>\<open>int\<close>.
\<close>

lemma free_ulp_zero_default:
  "map_option float_value (ulp (float_type \<lparr>has_builtin_clz = True, little_endian = True\<rparr>) 0)
     = Some (FFin False 1 (- 149))"
  "ulp (generic_type \<lparr>FP_ILOGB0 = - 2147483648, FP_ILOGBNAN = - 2147483648\<rparr> float_limits)
     (float_value 0) = None"
  "ulp (generic_type \<lparr>FP_ILOGB0 = - 2147483647, FP_ILOGBNAN = 2147483647\<rparr> float_limits)
     (float_value 0) = None"
proof -
  have "ulp (float_type \<lparr>has_builtin_clz = True, little_endian = True\<rparr>) 0 = Some 1"
    by (simp add: template_defs float_defs limits_defs count_leading_zeros32_def
        builtin_clz_def)
  moreover have "float_value 1 = FFin False 1 (- 149)" by (simp add: float_value_def)
  ultimately show "map_option float_value
      (ulp (float_type \<lparr>has_builtin_clz = True, little_endian = True\<rparr>) 0)
     = Some (FFin False 1 (- 149))" by simp
  have z: "float_value 0 = FFin False 0 (- 149)" by (simp add: float_value_def)
  show "ulp (generic_type \<lparr>FP_ILOGB0 = - 2147483648, FP_ILOGBNAN = - 2147483648\<rparr> float_limits)
     (float_value 0) = None"
    "ulp (generic_type \<lparr>FP_ILOGB0 = - 2147483647, FP_ILOGBNAN = 2147483647\<rparr> float_limits)
     (float_value 0) = None"
    by (simp_all add: z ilog2_def limits_defs ulp_def generic_type_def isinf_def isnan_def
        fp_isinf_def fp_isnan_def cint_def)
qed

end
